theory Spec2Isabelle
  imports Main "HOL-Library.Word"
begin

section \<open>EVM values, reverts and ABI encoding\<close>

text \<open>
  The contracts are Solidity \<open>^0.8.19\<close>: \<open>uint256\<close> arithmetic is checked (an overflow
  reverts with \<open>Panic(0x11)\<close>), a failed \<open>require\<close> reverts with its message, and a revert
  leaves the storage as it was. A mapping is total: a key never written reads as the zero
  value of its type.
\<close>

type_synonym uint256 = "256 word"
type_synonym address = "160 word"
type_synonym bytes32 = "256 word"
type_synonym bytes = "8 word list"

text \<open>
  One constructor per revert of the sources, named after the \<open>require\<close> message. The spec
  calls \<open>Signature_expired\<close> \<open>DeadlineExpired\<close>, \<open>Invalid_nonce\<close> \<open>NonceMismatch\<close>,
  \<open>Already_subscribed\<close> \<open>AlreadySubscribed\<close> and \<open>Insufficient_payment\<close>
  \<open>InsufficientPayment\<close>. The last four constructors are failures of \<open>processPayment\<close>,
  which is modelled from the spec further down.
\<close>

datatype error =
    Signature_expired
  | Invalid_nonce
  | ECDSA_invalid_signature
  | Panic_overflow
  | Non_payable
  | Amount_must_be_gt_0
  | Interval_must_be_gt_0
  | Plan_not_active
  | Already_subscribed
  | Insufficient_payment
  | Payment_failed
  | SubscriptionNotFound
  | GracePeriodExceeded
  | PaymentNotDue
  | SubscriptionExpired

definition checked_add :: "uint256 \<Rightarrow> uint256 \<Rightarrow> error + uint256" where
  "checked_add a b = (if unat a + unat b < 2 ^ 256 then Inr (a + b) else Inl Panic_overflow)"

text \<open>Big-endian bytes of a number, \<open>n\<close> of them.\<close>

fun be_bytes :: "nat \<Rightarrow> nat \<Rightarrow> bytes" where
  "be_bytes 0 x = []"
| "be_bytes (Suc n) x = be_bytes n (x div 256) @ [of_nat (x mod 256)]"

definition bytes_of_string :: "string \<Rightarrow> bytes" where
  "bytes_of_string s = map of_char s"

datatype abi_value = Address address | Uint256 uint256 | Bytes32 bytes32 | Bool bool

text \<open>\<open>abi.encode\<close> pads every static value to one 32-byte slot.\<close>

fun abi_slot :: "abi_value \<Rightarrow> bytes" where
  "abi_slot (Address a) = be_bytes 32 (unat a)"
| "abi_slot (Uint256 v) = be_bytes 32 (unat v)"
| "abi_slot (Bytes32 h) = be_bytes 32 (unat h)"
| "abi_slot (Bool b) = be_bytes 32 (if b then 1 else 0)"

definition abi_encode :: "abi_value list \<Rightarrow> bytes" where
  "abi_encode vs = concat (map abi_slot vs)"

text \<open>\<open>abi.encodePacked\<close> writes every value in its own width.\<close>

fun abi_packed :: "abi_value \<Rightarrow> bytes" where
  "abi_packed (Address a) = be_bytes 20 (unat a)"
| "abi_packed (Uint256 v) = be_bytes 32 (unat v)"
| "abi_packed (Bytes32 h) = be_bytes 32 (unat h)"
| "abi_packed (Bool b) = be_bytes 1 (if b then 1 else 0)"

definition abi_encodePacked :: "abi_value list \<Rightarrow> bytes" where
  "abi_encodePacked vs = concat (map abi_packed vs)"

text \<open>
  The primitives the contracts import and do not define: the EVM's \<open>keccak256\<close>,
  OpenZeppelin's \<open>EIP712._hashTypedDataV4\<close> (for the name and version given to the
  \<open>EIP712\<close> constructor) and \<open>ECDSA.recover\<close>, which reverts on a malformed signature
  (\<open>None\<close>). They are parameters of the model. Nothing is assumed of them in general;
  a theorem that rests on them says what it asks of them, at which inputs.
\<close>

record crypto =
  keccak256 :: "bytes \<Rightarrow> bytes32"
  hashTypedDataV4 :: "string \<Rightarrow> string \<Rightarrow> bytes32 \<Rightarrow> bytes32"
  recover :: "bytes32 \<Rightarrow> bytes \<Rightarrow> address option"

text \<open>What a call leaves behind apart from storage: its events and the value it sends.\<close>

datatype effect =
    NonceIncremented address uint256
  | PlanCreated bytes32 address address uint256
  | SubscriptionCreated bytes32 address
  | PaymentProcessed bytes32 address uint256
  | ValueSent address uint256

section \<open>EIP712Payment\<close>

text \<open>The contract's only storage variable is \<open>nonces\<close>.\<close>

record EIP712Payment =
  nonces :: "address \<Rightarrow> uint256"

text \<open>The three type strings and their hashes, the type tags.\<close>

definition PAYMENT_AUTHORIZATION_TYPE :: string where
  "PAYMENT_AUTHORIZATION_TYPE =
     ''PaymentAuthorization(address payer,address token,uint256 amount,uint256 deadline,uint256 nonce,string action)''"

definition SUBSCRIPTION_AUTHORIZATION_TYPE :: string where
  "SUBSCRIPTION_AUTHORIZATION_TYPE =
     ''SubscriptionAuthorization(bytes32 planId,address subscriber,uint256 amount,uint256 deadline,uint256 nonce,bool autoRenew)''"

definition RECURRING_PAYMENT_TYPE :: string where
  "RECURRING_PAYMENT_TYPE =
     ''RecurringPayment(bytes32 planId,address subscriber,uint256 amount,uint256 paymentNumber,uint256 deadline,uint256 nonce)''"

definition PAYMENT_AUTHORIZATION_TYPEHASH :: "crypto \<Rightarrow> bytes32" where
  "PAYMENT_AUTHORIZATION_TYPEHASH c = keccak256 c (bytes_of_string PAYMENT_AUTHORIZATION_TYPE)"

definition SUBSCRIPTION_AUTHORIZATION_TYPEHASH :: "crypto \<Rightarrow> bytes32" where
  "SUBSCRIPTION_AUTHORIZATION_TYPEHASH c = keccak256 c (bytes_of_string SUBSCRIPTION_AUTHORIZATION_TYPE)"

definition RECURRING_PAYMENT_TYPEHASH :: "crypto \<Rightarrow> bytes32" where
  "RECURRING_PAYMENT_TYPEHASH c = keccak256 c (bytes_of_string RECURRING_PAYMENT_TYPE)"

text \<open>\<open>_hashTypedDataV4\<close> of the contract, constructed as \<open>EIP712("SKALE Payment Tool", "1")\<close>.\<close>

definition getTypedDataHash :: "crypto \<Rightarrow> bytes32 \<Rightarrow> bytes32" where
  "getTypedDataHash c structHash = hashTypedDataV4 c ''SKALE Payment Tool'' ''1'' structHash"

definition buildPaymentAuthorizationHash ::
  "crypto \<Rightarrow> address \<Rightarrow> address \<Rightarrow> uint256 \<Rightarrow> uint256 \<Rightarrow> uint256 \<Rightarrow> string \<Rightarrow> bytes32" where
  "buildPaymentAuthorizationHash c payer tok amt deadline nonce action =
     keccak256 c (abi_encode [Bytes32 (PAYMENT_AUTHORIZATION_TYPEHASH c), Address payer, Address tok,
       Uint256 amt, Uint256 deadline, Uint256 nonce, Bytes32 (keccak256 c (bytes_of_string action))])"

definition buildSubscriptionAuthorizationHash ::
  "crypto \<Rightarrow> bytes32 \<Rightarrow> address \<Rightarrow> uint256 \<Rightarrow> uint256 \<Rightarrow> uint256 \<Rightarrow> bool \<Rightarrow> bytes32" where
  "buildSubscriptionAuthorizationHash c planId sub amt deadline nonce renew =
     keccak256 c (abi_encode [Bytes32 (SUBSCRIPTION_AUTHORIZATION_TYPEHASH c), Bytes32 planId, Address sub,
       Uint256 amt, Uint256 deadline, Uint256 nonce, Bool renew])"

text \<open>
  The three verifiers are \<open>view\<close> functions: they return a result (or revert) and write
  nothing. \<open>now\<close> is \<open>block.timestamp\<close>.
\<close>

definition verifyPaymentAuthorization ::
  "crypto \<Rightarrow> uint256 \<Rightarrow> EIP712Payment \<Rightarrow> address \<Rightarrow> address \<Rightarrow> uint256 \<Rightarrow> uint256 \<Rightarrow> uint256 \<Rightarrow> string \<Rightarrow> bytes
     \<Rightarrow> error + bool" where
  "verifyPaymentAuthorization c now s payer tok amt deadline nonce action signature =
     (if \<not> now \<le> deadline then Inl Signature_expired
      else if \<not> nonce = nonces s payer then Inl Invalid_nonce
      else
        (let structHash = keccak256 c (abi_encode [Bytes32 (PAYMENT_AUTHORIZATION_TYPEHASH c),
               Address payer, Address tok, Uint256 amt, Uint256 deadline, Uint256 nonce,
               Bytes32 (keccak256 c (bytes_of_string action))]);
             hash = getTypedDataHash c structHash
         in case recover c hash signature of
              None \<Rightarrow> Inl ECDSA_invalid_signature
            | Some signer \<Rightarrow> Inr (signer = payer)))"

definition verifySubscriptionAuthorization ::
  "crypto \<Rightarrow> uint256 \<Rightarrow> EIP712Payment \<Rightarrow> bytes32 \<Rightarrow> address \<Rightarrow> uint256 \<Rightarrow> uint256 \<Rightarrow> uint256 \<Rightarrow> bool \<Rightarrow> bytes
     \<Rightarrow> error + bool" where
  "verifySubscriptionAuthorization c now s planId sub amt deadline nonce renew signature =
     (if \<not> now \<le> deadline then Inl Signature_expired
      else if \<not> nonce = nonces s sub then Inl Invalid_nonce
      else
        (let structHash = keccak256 c (abi_encode [Bytes32 (SUBSCRIPTION_AUTHORIZATION_TYPEHASH c),
               Bytes32 planId, Address sub, Uint256 amt, Uint256 deadline, Uint256 nonce, Bool renew]);
             hash = getTypedDataHash c structHash
         in case recover c hash signature of
              None \<Rightarrow> Inl ECDSA_invalid_signature
            | Some signer \<Rightarrow> Inr (signer = sub)))"

definition verifyRecurringPayment ::
  "crypto \<Rightarrow> uint256 \<Rightarrow> EIP712Payment \<Rightarrow> bytes32 \<Rightarrow> address \<Rightarrow> uint256 \<Rightarrow> uint256 \<Rightarrow> uint256 \<Rightarrow> uint256 \<Rightarrow> bytes
     \<Rightarrow> error + bool" where
  "verifyRecurringPayment c now s planId sub amt paymentNumber deadline nonce signature =
     (if \<not> now \<le> deadline then Inl Signature_expired
      else if \<not> nonce = nonces s sub then Inl Invalid_nonce
      else
        (let structHash = keccak256 c (abi_encode [Bytes32 (RECURRING_PAYMENT_TYPEHASH c),
               Bytes32 planId, Address sub, Uint256 amt, Uint256 paymentNumber, Uint256 deadline,
               Uint256 nonce]);
             hash = getTypedDataHash c structHash
         in case recover c hash signature of
              None \<Rightarrow> Inl ECDSA_invalid_signature
            | Some signer \<Rightarrow> Inr (signer = sub)))"

text \<open>\<open>_incrementNonce\<close>: \<open>nonces[user]++\<close>, checked, then the event with the new value.\<close>

definition incrementNonce :: "EIP712Payment \<Rightarrow> address \<Rightarrow> error + (EIP712Payment \<times> effect list)" where
  "incrementNonce s user =
     (case checked_add (nonces s user) 1 of
        Inl e \<Rightarrow> Inl e
      | Inr n \<Rightarrow>
          (let s' = s\<lparr>nonces := (nonces s)(user := n)\<rparr>
           in Inr (s', [NonceIncremented user (nonces s' user)])))"

definition getNonce :: "EIP712Payment \<Rightarrow> address \<Rightarrow> uint256" where
  "getNonce s user = nonces s user"

text \<open>
  Every operation of the contract as one call at some block time. \<open>exec_payment\<close> gives
  the call's result and the storage after it: a \<open>view\<close> call and a reverted call leave
  the storage as it was.
\<close>

datatype payment_call =
    VerifyPaymentAuthorization address address uint256 uint256 uint256 string bytes
  | VerifySubscriptionAuthorization bytes32 address uint256 uint256 uint256 bool bytes
  | VerifyRecurringPayment bytes32 address uint256 uint256 uint256 uint256 bytes
  | IncrementNonce address
  | GetNonce address

datatype returned = Returned_bool bool | Returned_uint uint256 | Returned_unit

fun exec_payment :: "crypto \<Rightarrow> uint256 \<times> payment_call \<Rightarrow> EIP712Payment \<Rightarrow> (error + returned) \<times> EIP712Payment" where
  "exec_payment c (now, VerifyPaymentAuthorization payer tok amt deadline nonce action signature) s =
     (map_sum id Returned_bool
        (verifyPaymentAuthorization c now s payer tok amt deadline nonce action signature), s)"
| "exec_payment c (now, VerifySubscriptionAuthorization planId sub amt deadline nonce renew signature) s =
     (map_sum id Returned_bool
        (verifySubscriptionAuthorization c now s planId sub amt deadline nonce renew signature), s)"
| "exec_payment c (now, VerifyRecurringPayment planId sub amt paymentNumber deadline nonce signature) s =
     (map_sum id Returned_bool
        (verifyRecurringPayment c now s planId sub amt paymentNumber deadline nonce signature), s)"
| "exec_payment c (now, IncrementNonce user) s =
     (case incrementNonce s user of
        Inl e \<Rightarrow> (Inl e, s)
      | Inr (s', evs) \<Rightarrow> (Inr Returned_unit, s'))"
| "exec_payment c (now, GetNonce user) s = (Inr (Returned_uint (getNonce s user)), s)"

fun run_payment :: "crypto \<Rightarrow> (uint256 \<times> payment_call) list \<Rightarrow> EIP712Payment \<Rightarrow> EIP712Payment" where
  "run_payment c [] s = s"
| "run_payment c (x # xs) s = run_payment c xs (snd (exec_payment c x s))"

section \<open>What the three verifiers hash, and what can be asked of the primitives\<close>




text \<open>
  Nothing is assumed of the primitives in general. Where a property rests on them, it is
  asked of them at the inputs concerned: \<open>keccak256\<close> does not collide on two given byte
  strings, and a given signature recovers a given signer under one digest only.
\<close>

definition collision_free :: "crypto \<Rightarrow> bytes \<Rightarrow> bytes \<Rightarrow> bool" where
  "collision_free c x y \<longleftrightarrow> (keccak256 c x = keccak256 c y \<longrightarrow> x = y)"


section \<open>SubscriptionManager\<close>

record SubscriptionPlan =
  token :: address
  amount :: uint256
  interval :: uint256
  duration :: uint256
  gracePeriod :: uint256
  active :: bool
  creator :: address
  paymentRecipient :: address
  apiUrl :: string
  totalSubscribers :: uint256

record Subscription =
  subscriber :: address
  startTime :: uint256
  nextPaymentDue :: uint256
  endTime :: uint256
  totalPaid :: uint256
  missedPayments :: uint256
  active :: bool
  autoRenew :: bool

text \<open>
  The state of the contract: its storage and, in \<open>balance\<close>, the native value its
  account holds (\<open>address(this).balance\<close>, kept by the EVM beside the storage). The
  \<open>nonces\<close> mapping is declared and read by \<open>getNonce\<close> but never written; it is the
  field \<open>SubscriptionManager.nonces\<close> here.
\<close>

record SubscriptionManager =
  plans :: "bytes32 \<Rightarrow> SubscriptionPlan"
  subscriptions :: "bytes32 \<Rightarrow> address \<Rightarrow> Subscription"
  nonces :: "address \<Rightarrow> uint256"
  allPlans :: "bytes32 list"
  planCounter :: uint256
  balance :: nat

definition zero_plan :: SubscriptionPlan where
  "zero_plan = \<lparr>token = 0, amount = 0, interval = 0, duration = 0, gracePeriod = 0,
     SubscriptionPlan.active = False, creator = 0, paymentRecipient = 0, apiUrl = [],
     totalSubscribers = 0\<rparr>"

definition zero_subscription :: Subscription where
  "zero_subscription = \<lparr>subscriber = 0, startTime = 0, nextPaymentDue = 0, endTime = 0,
     totalPaid = 0, missedPayments = 0, active = False, autoRenew = False\<rparr>"

text \<open>The state after the (empty) constructor.\<close>

definition deployed :: SubscriptionManager where
  "deployed = \<lparr>plans = (\<lambda>_. zero_plan), subscriptions = (\<lambda>_ _. zero_subscription),
     nonces = (\<lambda>_. 0), allPlans = [], planCounter = 0, balance = 0\<rparr>"

text \<open>
  \<open>createPlan\<close>, called by \<open>sender\<close> (\<open>msg.sender\<close>) at block time \<open>now\<close>. It returns
  the plan's identifier, the state after the call and the event.
\<close>

definition createPlan ::
  "crypto \<Rightarrow> address \<Rightarrow> uint256 \<Rightarrow> SubscriptionManager
     \<Rightarrow> address \<Rightarrow> uint256 \<Rightarrow> uint256 \<Rightarrow> uint256 \<Rightarrow> uint256 \<Rightarrow> string
     \<Rightarrow> error + (bytes32 \<times> SubscriptionManager \<times> effect list)" where
  "createPlan c sender now s token' amount' interval' duration' gracePeriod' apiUrl' =
     (if \<not> amount' > 0 then Inl Amount_must_be_gt_0
      else if \<not> interval' > 0 then Inl Interval_must_be_gt_0
      else
        (case checked_add (planCounter s) 1 of
           Inl e \<Rightarrow> Inl e
         | Inr counter \<Rightarrow>
             (let planId = keccak256 c (abi_encodePacked [Address sender, Uint256 counter, Uint256 now]);
                  plan = \<lparr>token = token', amount = amount', interval = interval',
                    duration = duration', gracePeriod = gracePeriod',
                    SubscriptionPlan.active = True, creator = sender, paymentRecipient = sender,
                    apiUrl = apiUrl', totalSubscribers = 0\<rparr>
              in Inr (planId,
                   s\<lparr>planCounter := counter,
                     plans := (plans s)(planId := plan),
                     allPlans := allPlans s @ [planId]\<rparr>,
                   [PlanCreated planId sender token' amount']))))"

text \<open>
  What the code at the recipient's address does while it handles a transfer: it may call
  back into the contract, so it is a function on the contract's state, giving the flag
  the call returns, the state it leaves and the effects of its calls. The code itself is
  not part of the contract.
\<close>

type_synonym reaction = "SubscriptionManager \<Rightarrow> bool \<times> SubscriptionManager \<times> effect list"

text \<open>
  \<open>to.call{value: v}("")\<close>: the call fails without running the recipient when the
  balance does not cover \<open>v\<close>; otherwise the value leaves the balance and the recipient
  runs. When the recipient fails, what it did is undone.
\<close>

definition call_value :: "reaction \<Rightarrow> address \<Rightarrow> uint256 \<Rightarrow> SubscriptionManager
     \<Rightarrow> bool \<times> SubscriptionManager \<times> effect list" where
  "call_value recipient to v s =
     (if balance s < unat v then (False, s, [])
      else
        (case recipient (s\<lparr>balance := balance s - unat v\<rparr>) of
           (success, s', evs) \<Rightarrow>
             if success then (True, s', ValueSent to v # evs) else (False, s, [])))"

text \<open>
  \<open>subscribe\<close>, called by \<open>sender\<close> with \<open>paid\<close> (\<open>msg.value\<close>) at block time \<open>now\<close>,
  statement by statement. \<open>s\<close> is the state when the body starts: the EVM has credited
  \<open>paid\<close> to the balance already (see \<open>exec_call\<close>). \<open>plan\<close> is the memory copy read
  first; the record and the counter are written after the recipient has run, into the
  state the recipient left.
\<close>

definition subscribe ::
  "reaction \<Rightarrow> address \<Rightarrow> uint256 \<Rightarrow> uint256 \<Rightarrow> SubscriptionManager \<Rightarrow> bytes32 \<Rightarrow> bool
     \<Rightarrow> error + (SubscriptionManager \<times> effect list)" where
  "subscribe recipient sender paid now s planId autoRenew' =
     (let plan = plans s planId in
      if \<not> SubscriptionPlan.active plan then Inl Plan_not_active
      else if \<not> subscriber (subscriptions s planId sender) = 0 then Inl Already_subscribed
      else
        (case (if token plan = 0 then
                 (if \<not> paid \<ge> amount plan then Inl Insufficient_payment
                  else
                    (case call_value recipient (paymentRecipient plan) (amount plan) s of
                       (success, s', evs) \<Rightarrow>
                         if \<not> success then Inl Payment_failed else Inr (s', evs)))
               else Inr (s, [])) of
           Inl e \<Rightarrow> Inl e
         | Inr (s0, evs0) \<Rightarrow>
        (let startTime' = now in
         case checked_add startTime' (interval plan) of
           Inl e \<Rightarrow> Inl e
         | Inr due \<Rightarrow>
         (case checked_add startTime' (duration plan) of
           Inl e \<Rightarrow> Inl e
         | Inr end' \<Rightarrow>
         (let s1 = s0\<lparr>subscriptions := (subscriptions s0)(planId := (subscriptions s0 planId)(sender :=
                    \<lparr>subscriber = sender, startTime = startTime', nextPaymentDue = due,
                      endTime = end', totalPaid = amount plan, missedPayments = 0,
                      active = True, autoRenew = autoRenew'\<rparr>))\<rparr>
          in case checked_add (totalSubscribers (plans s1 planId)) 1 of
               Inl e \<Rightarrow> Inl e
             | Inr n \<Rightarrow>
                 Inr (s1\<lparr>plans := (plans s1)(planId := (plans s1 planId)\<lparr>totalSubscribers := n\<rparr>)\<rparr>,
                   evs0 @ [SubscriptionCreated planId sender,
                           PaymentProcessed planId sender (amount plan)]))))))"

definition getPlan :: "SubscriptionManager \<Rightarrow> bytes32 \<Rightarrow> SubscriptionPlan" where
  "getPlan s planId = plans s planId"

definition getSubscription :: "SubscriptionManager \<Rightarrow> bytes32 \<Rightarrow> address \<Rightarrow> Subscription" where
  "getSubscription s planId sub = subscriptions s planId sub"

definition getAllPlans :: "SubscriptionManager \<Rightarrow> bytes32 list" where
  "getAllPlans s = allPlans s"

text \<open>
  Every external function of the contract as a call: who calls, with how much value, at
  what block time. A \<open>Subscribe\<close> call carries what the recipient of its payment does:
  the calls it makes back into the contract (each with its caller and value, and, when
  it is a \<open>Subscribe\<close>, its own recipient's calls), and the flag it returns. A call of
  the recipient that reverts changes nothing and the recipient goes on. Only
  \<open>subscribe\<close> is \<open>payable\<close>: any other call carrying value reverts. The value of a
  call is credited to the balance before the body runs.
\<close>

datatype manager_call =
    CreatePlan address uint256 uint256 uint256 uint256 string
  | Subscribe bytes32 bool "(address \<times> uint256 \<times> manager_call) list" bool
  | GetPlan bytes32
  | GetSubscription bytes32 address
  | GetAllPlans
  | GetNonce_manager address

fun exec_call :: "crypto \<Rightarrow> address \<Rightarrow> uint256 \<Rightarrow> uint256 \<Rightarrow> manager_call \<Rightarrow> SubscriptionManager
     \<Rightarrow> error + (SubscriptionManager \<times> effect list)"
  and run_calls :: "crypto \<Rightarrow> uint256 \<Rightarrow> (address \<times> uint256 \<times> manager_call) list \<Rightarrow> SubscriptionManager
     \<Rightarrow> SubscriptionManager \<times> effect list" where
  "exec_call c sender paid now (Subscribe planId renew callbacks ok) s =
     subscribe (\<lambda>s1. case run_calls c now callbacks s1 of (s2, evs) \<Rightarrow> (ok, s2, evs))
       sender paid now (s\<lparr>balance := balance s + unat paid\<rparr>) planId renew"
| "exec_call c sender paid now (CreatePlan token' amount' interval' duration' gracePeriod' apiUrl') s =
     (if paid \<noteq> 0 then Inl Non_payable
      else map_sum id snd
             (createPlan c sender now s token' amount' interval' duration' gracePeriod' apiUrl'))"
| "exec_call c sender paid now (GetPlan planId) s = (if paid \<noteq> 0 then Inl Non_payable else Inr (s, []))"
| "exec_call c sender paid now (GetSubscription planId sub) s =
     (if paid \<noteq> 0 then Inl Non_payable else Inr (s, []))"
| "exec_call c sender paid now GetAllPlans s = (if paid \<noteq> 0 then Inl Non_payable else Inr (s, []))"
| "exec_call c sender paid now (GetNonce_manager user) s =
     (if paid \<noteq> 0 then Inl Non_payable else Inr (s, []))"
| "run_calls c now [] s = (s, [])"
| "run_calls c now ((sender, paid, call) # calls) s =
     (case exec_call c sender paid now call s of
        Inl e \<Rightarrow> run_calls c now calls s
      | Inr (s', evs) \<Rightarrow> (case run_calls c now calls s' of (s'', evs') \<Rightarrow> (s'', evs @ evs')))"

text \<open>
  A transaction is a call from outside; \<open>exec_manager\<close> is the state after it. A revert
  leaves the state as it was.
\<close>

record transaction =
  tx_sender :: address
  tx_paid :: uint256
  tx_time :: uint256
  tx_call :: manager_call

definition exec_manager :: "crypto \<Rightarrow> transaction \<Rightarrow> SubscriptionManager \<Rightarrow> SubscriptionManager" where
  "exec_manager c t s =
     (case exec_call c (tx_sender t) (tx_paid t) (tx_time t) (tx_call t) s of
        Inl e \<Rightarrow> s
      | Inr (s', evs) \<Rightarrow> s')"

fun run_manager :: "crypto \<Rightarrow> transaction list \<Rightarrow> SubscriptionManager \<Rightarrow> SubscriptionManager" where
  "run_manager c [] s = s"
| "run_manager c (t # ts) s = run_manager c ts (exec_manager c t s)"

text \<open>
  The plans created so far, as the (creator, counter, block time) tuples their identifiers
  were hashed from, in the order of \<open>allPlans\<close>: every stored identifier is the hash of a
  tuple whose counter is at most the current \<open>planCounter\<close>.
\<close>

definition plan_tuple :: "address \<times> uint256 \<times> uint256 \<Rightarrow> bytes" where
  "plan_tuple m = (case m of (a, n, t) \<Rightarrow> abi_encodePacked [Address a, Uint256 n, Uint256 t])"

definition plan_id :: "crypto \<Rightarrow> address \<times> uint256 \<times> uint256 \<Rightarrow> bytes32" where
  "plan_id c m = keccak256 c (plan_tuple m)"

definition created_from :: "crypto \<Rightarrow> SubscriptionManager \<Rightarrow> (address \<times> uint256 \<times> uint256) list \<Rightarrow> bool" where
  "created_from c s made \<longleftrightarrow>
     allPlans s = map (plan_id c) made
     \<and> list_all (\<lambda>m. case m of (a, n, t) \<Rightarrow> unat n \<le> unat (planCounter s)) made"

section \<open>Recurring charges\<close>

text \<open>
  Modelled from the spec: the payment records and the ledger that holds them. The
  contract among the sources (SubscriptionManager, "Simplified for Testing") keeps no
  payment records; section 3 of the spec gives a PaymentRecord an identifier, the owning
  subscription key, the amount, the timestamp, the settlement reference and a type tag
  (initial, recurring or renewal), and has records appended, never changed.
\<close>

datatype payment_type = Initial | Recurring | Renewal

record PaymentRecord =
  record_id :: nat
  record_plan :: bytes32
  record_subscriber :: address
  record_amount :: uint256
  record_time :: uint256
  record_settlement :: string
  record_type :: payment_type

record Ledger =
  manager :: SubscriptionManager
  payment_records :: "PaymentRecord list"

definition put_subscription :: "Ledger \<Rightarrow> bytes32 \<Rightarrow> address \<Rightarrow> Subscription \<Rightarrow> Ledger" where
  "put_subscription l planId sub sb =
     l\<lparr>manager := (manager l)\<lparr>subscriptions :=
         (subscriptions (manager l))(planId := (subscriptions (manager l) planId)(sub := sb))\<rparr>\<rparr>"

text \<open>
  Modelled from the spec: \<open>processPayment\<close>. The repository declares
  \<open>processPayment(bytes32 planId)\<close> in the contract interface of its documentation, but
  the contract among the sources (SubscriptionManager, "Simplified for Testing") has no
  such function, and no payment records. The definition follows section 4.2 of the spec
  on the storage of the contract, with the contract's checked arithmetic:
  \<^item> it requires an active Subscription whose \<open>nextPaymentDue\<close> has arrived;
  \<^item> after the grace period has elapsed (the boundary \<open>nextPaymentDue + gracePeriod\<close> is
    inclusive) it fails with \<open>GracePeriodExceeded\<close> and increments \<open>missedPayments\<close>;
  \<^item> past \<open>endTime\<close> no charge is accepted unless \<open>autoRenew\<close> is set, in which case
    the renewal extends \<open>endTime\<close> by the plan's duration and schedules the next due
    date as every charge does (the spec's round trip of the due date is over every
    successful call);
  \<^item> on success it advances \<open>nextPaymentDue\<close> by the plan's interval, from the scheduled
    due date, appends a PaymentRecord and resets \<open>missedPayments\<close>.
  The spec names no failure for a charge that is not yet due or for an expired
  subscription: they are \<open>PaymentNotDue\<close> and \<open>SubscriptionExpired\<close> here. The result
  is \<open>None\<close> for a success and the failure otherwise, with the ledger after the call.
\<close>

definition processPayment :: "uint256 \<Rightarrow> Ledger \<Rightarrow> bytes32 \<Rightarrow> address \<Rightarrow> string \<Rightarrow> error option \<times> Ledger" where
  "processPayment now l planId sub settlementRef =
     (let plan = plans (manager l) planId;
          sb = subscriptions (manager l) planId sub
      in
      if subscriber sb = 0 \<or> \<not> active sb then (Some SubscriptionNotFound, l)
      else if now < nextPaymentDue sb then (Some PaymentNotDue, l)
      else if unat (nextPaymentDue sb) + unat (gracePeriod plan) < unat now then
        (case checked_add (missedPayments sb) 1 of
           Inl e \<Rightarrow> (Some e, l)
         | Inr m \<Rightarrow> (Some GracePeriodExceeded, put_subscription l planId sub (sb\<lparr>missedPayments := m\<rparr>)))
      else if endTime sb < now \<and> \<not> autoRenew sb then (Some SubscriptionExpired, l)
      else
        (case checked_add (nextPaymentDue sb) (interval plan) of
           Inl e \<Rightarrow> (Some e, l)
         | Inr due \<Rightarrow>
         (case (if endTime sb < now then checked_add (endTime sb) (duration plan) else Inr (endTime sb)) of
           Inl e \<Rightarrow> (Some e, l)
         | Inr end' \<Rightarrow>
             (None,
              (put_subscription l planId sub
                 (sb\<lparr>nextPaymentDue := due, endTime := end', missedPayments := 0\<rparr>))
              \<lparr>payment_records := payment_records l @
                 [\<lparr>record_id = length (payment_records l), record_plan = planId,
                   record_subscriber = sub, record_amount = amount plan, record_time = now,
                   record_settlement = settlementRef,
                   record_type = (if endTime sb < now then Renewal else Recurring)\<rparr>]\<rparr>))))"

text \<open>
  A run of \<open>processPayment\<close> calls for one subscription, each at its own block time, with
  the number of calls that succeeded.
\<close>

fun run_payments :: "Ledger \<Rightarrow> bytes32 \<Rightarrow> address \<Rightarrow> (uint256 \<times> string) list \<Rightarrow> Ledger \<times> nat" where
  "run_payments l planId sub [] = (l, 0)"
| "run_payments l planId sub ((now, settlementRef) # calls) =
     (case processPayment now l planId sub settlementRef of
        (None, l') \<Rightarrow> (case run_payments l' planId sub calls of (l'', n) \<Rightarrow> (l'', Suc n))
      | (Some e, l') \<Rightarrow> run_payments l' planId sub calls)"

section \<open>A toy instance of the primitives, for concrete runs\<close>

text \<open>
  Concrete runs need concrete primitives. These are stand-ins that compute, not the real
  hash and signature scheme: the hash is the length of its input, and a two-byte signature
  names its signer in the first byte and the low byte of the digest in the second.
\<close>

definition toy_keccak256 :: "bytes \<Rightarrow> bytes32" where
  "toy_keccak256 bs = of_nat (length bs)"

definition toy_hashTypedDataV4 :: "string \<Rightarrow> string \<Rightarrow> bytes32 \<Rightarrow> bytes32" where
  "toy_hashTypedDataV4 name version h = h + of_nat (length name) + of_nat (length version)"

definition toy_recover :: "bytes32 \<Rightarrow> bytes \<Rightarrow> address option" where
  "toy_recover h signature =
     (case signature of
        [a, b] \<Rightarrow> if b = ucast h then Some (ucast a) else None
      | _ \<Rightarrow> None)"

definition toy :: crypto where
  "toy = \<lparr>keccak256 = toy_keccak256, hashTypedDataV4 = toy_hashTypedDataV4, recover = toy_recover\<rparr>"

definition fresh_payment :: EIP712Payment where
  "fresh_payment = \<lparr>EIP712Payment.nonces = (\<lambda>_. 0)\<rparr>"

text \<open>
  The plan of the repository's test and of the spec's scenarios: amount 100, interval 30
  days, duration 365 days, grace 3 days, created by address 1 at time 1700000000 on the
  freshly deployed contract. With the toy hash its identifier is 84, the length of the
  packed encoding. \<open>plan_state\<close> is the state after that \<open>createPlan\<close>, for a plan priced
  in the token \<open>tok\<close> (0 is the native token).
\<close>

definition plan_state :: "address \<Rightarrow> SubscriptionManager" where
  "plan_state tok = deployed\<lparr>planCounter := 1,
     plans := (plans deployed)(84 := \<lparr>token = tok, amount = 100, interval = 2592000,
       duration = 31536000, gracePeriod = 259200, SubscriptionPlan.active = True, creator = 1,
       paymentRecipient = 1, apiUrl = ''https://api.example.com'', totalSubscribers = 0\<rparr>),
     allPlans := [84]\<rparr>"

text \<open>
  The state after address 2 subscribed to that plan at time 1700000000, what it paid
  for a native-token plan sent on to the recipient.
\<close>

definition subscribed_state :: "address \<Rightarrow> SubscriptionManager" where
  "subscribed_state tok = (plan_state tok)\<lparr>
     subscriptions := (subscriptions (plan_state tok))(84 := (subscriptions (plan_state tok) 84)(2 :=
       \<lparr>subscriber = 2, startTime = 1700000000, nextPaymentDue = 1702592000,
         endTime = 1731536000, totalPaid = 100, missedPayments = 0, active = True,
         autoRenew = True\<rparr>)),
     plans := (plans (plan_state tok))(84 := (plans (plan_state tok) 84)\<lparr>totalSubscribers := 1\<rparr>)\<rparr>"

text \<open>
  A second instance, whose hash tells its inputs apart by their content and whose
  signatures are bound to one digest: the hash is the sum of the bytes plus their number,
  and a signature is the signer's byte followed by the 32 bytes of the digest it signs.
\<close>

definition checksum_keccak256 :: "bytes \<Rightarrow> bytes32" where
  "checksum_keccak256 bs = of_nat (sum_list (map unat bs) + length bs)"

definition digest_recover :: "bytes32 \<Rightarrow> bytes \<Rightarrow> address option" where
  "digest_recover h signature =
     (case signature of
        [] \<Rightarrow> None
      | a # d \<Rightarrow> if d = be_bytes 32 (unat h) then Some (ucast a) else None)"

definition checksum :: crypto where
  "checksum = \<lparr>keccak256 = checksum_keccak256, hashTypedDataV4 = toy_hashTypedDataV4,
     recover = digest_recover\<rparr>"

section \<open>Checked arithmetic and the toy primitives\<close>

lemma checked_add_Inr: "checked_add a b = Inr r \<Longrightarrow> unat r = unat a + unat b"
  by (auto simp: checked_add_def unat_word_ariths split: if_splits)

lemma toy_simps [simp]:
  "keccak256 toy = toy_keccak256" "hashTypedDataV4 toy = toy_hashTypedDataV4" "recover toy = toy_recover"
  by (simp_all add: toy_def)

lemma length_be_bytes [simp]: "length (be_bytes n x) = n"
  by (induction n arbitrary: x) simp_all

lemma length_abi_slot [simp]: "length (abi_slot v) = 32"
  by (cases v) simp_all

lemma length_abi_encode [simp]: "length (abi_encode vs) = 32 * length vs"
  by (induction vs) (simp_all add: abi_encode_def)

lemma toy_digest [simp]:
  "getTypedDataHash toy (toy_keccak256 (abi_encode [v1, v2, v3, v4, v5, v6, v7])) = 243"
  by (simp add: getTypedDataHash_def toy_keccak256_def toy_hashTypedDataV4_def)

lemma toy_verify:
  "verifyPaymentAuthorization toy 1000 fresh_payment 2 0 100 2000 0 ''subscribe'' [2, 243] = Inr True"
  by (simp add: verifyPaymentAuthorization_def Let_def toy_recover_def fresh_payment_def)

lemma toy_increment:
  "incrementNonce fresh_payment 2
     = Inr (\<lparr>EIP712Payment.nonces = (\<lambda>_. 0)(2 := 1)\<rparr>, [NonceIncremented 2 1])"
  by (simp add: incrementNonce_def checked_add_def fresh_payment_def Let_def)

section \<open>The nonce ledger\<close>

lemma incrementNonce_Inr:
  "incrementNonce s user = Inr (s', evs) \<Longrightarrow>
     unat (EIP712Payment.nonces s' user) = unat (EIP712Payment.nonces s user) + 1
     \<and> (\<forall>u. u \<noteq> user \<longrightarrow> EIP712Payment.nonces s' u = EIP712Payment.nonces s u)"
  by (auto simp: incrementNonce_def Let_def dest: checked_add_Inr split: sum.splits)

text \<open>No operation of the contract lowers a stored nonce.\<close>

lemma exec_payment_mono:
  "unat (EIP712Payment.nonces s u) \<le> unat (EIP712Payment.nonces (snd (exec_payment c x s)) u)"
proof (cases x)
  case (Pair now call)
  show ?thesis
  proof (cases call)
    case (IncrementNonce user)
    show ?thesis
    proof (cases "incrementNonce s user")
      case (Inl e)
      with Pair IncrementNonce show ?thesis by simp
    next
      case (Inr r)
      obtain s' evs where r: "r = (s', evs)" by (cases r)
      from incrementNonce_Inr[OF Inr[unfolded r]] Pair IncrementNonce Inr r
      show ?thesis by (cases "u = user") auto
    qed
  qed (use Pair in simp_all)
qed

lemma run_payment_mono:
  "unat (EIP712Payment.nonces s u) \<le> unat (EIP712Payment.nonces (run_payment c xs s) u)"
proof (induction xs arbitrary: s)
  case Nil
  show ?case by simp
next
  case (Cons x xs)
  have "unat (EIP712Payment.nonces s u) \<le> unat (EIP712Payment.nonces (snd (exec_payment c x s)) u)"
    by (rule exec_payment_mono)
  also have "\<dots> \<le> unat (EIP712Payment.nonces (run_payment c xs (snd (exec_payment c x s))) u)"
    by (rule Cons.IH)
  finally show ?case by simp
qed

text \<open>
  C1, as stated, fails: a replay does not always fail with "Invalid nonce"
  (NonceMismatch). The deadline is checked before the nonce, so after a successful
  verification and its increment, the same authorization presented again once its
  deadline (2000) has passed, here at time 2001, fails with "Signature expired"
  (DeadlineExpired).
\<close>

theorem replay_after_deadline:
  "verifyPaymentAuthorization toy 1000 fresh_payment 2 0 100 2000 0 ''subscribe'' [2, 243] = Inr True
   \<and> incrementNonce fresh_payment 2
       = Inr (\<lparr>EIP712Payment.nonces = (\<lambda>_. 0)(2 := 1)\<rparr>, [NonceIncremented 2 1])
   \<and> verifyPaymentAuthorization toy 2001 \<lparr>EIP712Payment.nonces = (\<lambda>_. 0)(2 := 1)\<rparr>
        2 0 100 2000 0 ''subscribe'' [2, 243] = Inl Signature_expired"
  by (simp add: toy_verify toy_increment) (simp add: verifyPaymentAuthorization_def)

text \<open>
  C1, amended. A payment authorization for a (payer, nonce) pair verifies at most once.
  Once a verification has succeeded and \<open>_incrementNonce\<close> has admitted it, then after
  any further sequence of calls of the contract, at any block times, the stored nonce of
  the payer is strictly above the presented one, and a verification presenting that
  nonce again (whatever its other arguments) fails: with "Invalid nonce" (NonceMismatch)
  when its deadline has not passed, and with "Signature expired" (DeadlineExpired) when
  it has, since the deadline is checked first.
\<close>

theorem nonce_single_use:
  assumes first: "verifyPaymentAuthorization c now1 s payer tok amt deadline nonce action signature = Inr True"
      and admitted: "incrementNonce s payer = Inr (s1, evs)"
  shows "\<forall>calls now2 tok2 amt2 deadline2 action2 signature2.
           unat nonce < unat (EIP712Payment.nonces (run_payment c calls s1) payer)
         \<and> verifyPaymentAuthorization c now2 (run_payment c calls s1) payer tok2 amt2 deadline2 nonce
               action2 signature2
             = (if now2 \<le> deadline2 then Inl Invalid_nonce else Inl Signature_expired)"
proof (intro allI)
  fix calls now2 tok2 amt2 deadline2 action2 signature2
  let ?s2 = "run_payment c calls s1"
  from first have stored: "nonce = EIP712Payment.nonces s payer"
    by (auto simp: verifyPaymentAuthorization_def split: if_splits)
  from incrementNonce_Inr[OF admitted] stored
  have "unat nonce < unat (EIP712Payment.nonces s1 payer)" by simp
  also have "\<dots> \<le> unat (EIP712Payment.nonces ?s2 payer)" by (rule run_payment_mono)
  finally have later: "unat nonce < unat (EIP712Payment.nonces ?s2 payer)" .
  then have "nonce \<noteq> EIP712Payment.nonces ?s2 payer" by auto
  then have "verifyPaymentAuthorization c now2 ?s2 payer tok2 amt2 deadline2 nonce action2 signature2
      = (if now2 \<le> deadline2 then Inl Invalid_nonce else Inl Signature_expired)"
    by (simp add: verifyPaymentAuthorization_def)
  with later show "unat nonce < unat (EIP712Payment.nonces ?s2 payer)
     \<and> verifyPaymentAuthorization c now2 ?s2 payer tok2 amt2 deadline2 nonce action2 signature2
      = (if now2 \<le> deadline2 then Inl Invalid_nonce else Inl Signature_expired)" by simp
qed

theorem nonce_single_use_witness:
  "verifyPaymentAuthorization toy 1000 fresh_payment 2 0 100 2000 0 ''subscribe'' [2, 243] = Inr True
   \<and> incrementNonce fresh_payment 2
       = Inr (\<lparr>EIP712Payment.nonces = (\<lambda>_. 0)(2 := 1)\<rparr>, [NonceIncremented 2 1])
   \<and> verifyPaymentAuthorization toy 1500
        (run_payment toy [(1200, IncrementNonce 3), (1300, GetNonce 2)]
           \<lparr>EIP712Payment.nonces = (\<lambda>_. 0)(2 := 1)\<rparr>)
        2 0 100 2000 0 ''subscribe'' [2, 243] = Inl Invalid_nonce"
proof -
  note first = toy_verify
  note admitted = toy_increment
  from nonce_single_use [OF first admitted]
  have "verifyPaymentAuthorization toy 1500
        (run_payment toy [(1200, IncrementNonce 3), (1300, GetNonce 2)]
           \<lparr>EIP712Payment.nonces = (\<lambda>_. 0)(2 := 1)\<rparr>)
        2 0 100 2000 0 ''subscribe'' [2, 243]
      = (if (1500 :: uint256) \<le> 2000 then Inl Invalid_nonce else Inl Signature_expired)"
    by blast
  with first admitted show ?thesis by simp
qed

text \<open>
  C2. With a deadline not earlier than the block time and a nonce equal to the payer's
  stored nonce, \<open>verifyPaymentAuthorization\<close> returns true exactly when the signer
  recovered from the signature and the typed-data digest (domain "SKALE Payment Tool",
  version "1") of the struct hash over the type hash, payer, token, amount, deadline,
  nonce and the hash of the action is the claimed payer.
\<close>

theorem payment_authorization_iff_signer:
  assumes "now \<le> deadline" and "nonce = EIP712Payment.nonces s payer"
  shows "verifyPaymentAuthorization c now s payer tok amt deadline nonce action signature = Inr True
     \<longleftrightarrow> recover c
           (hashTypedDataV4 c ''SKALE Payment Tool'' ''1''
              (keccak256 c (abi_encode [Bytes32 (PAYMENT_AUTHORIZATION_TYPEHASH c),
                 Address payer, Address tok, Uint256 amt, Uint256 deadline, Uint256 nonce,
                 Bytes32 (keccak256 c (bytes_of_string action))])))
           signature = Some payer"
  using assms
  by (simp add: verifyPaymentAuthorization_def getTypedDataHash_def Let_def split: option.split)

theorem payment_authorization_iff_signer_witness:
  "(1000 :: uint256) \<le> 2000 \<and> (0 :: uint256) = EIP712Payment.nonces fresh_payment 2
   \<and> verifyPaymentAuthorization toy 1000 fresh_payment 2 0 100 2000 0 ''subscribe'' [2, 243] = Inr True
   \<and> recover toy
           (hashTypedDataV4 toy ''SKALE Payment Tool'' ''1''
              (keccak256 toy (abi_encode [Bytes32 (PAYMENT_AUTHORIZATION_TYPEHASH toy),
                 Address 2, Address 0, Uint256 100, Uint256 2000, Uint256 0,
                 Bytes32 (keccak256 toy (bytes_of_string ''subscribe''))])))
           [2, 243] = Some 2
   \<and> verifyPaymentAuthorization toy 1000 fresh_payment 2 0 100 2000 0 ''subscribe'' [3, 243] = Inr False"
proof -
  have t: "(1000 :: uint256) \<le> 2000" by simp
  have n: "(0 :: uint256) = EIP712Payment.nonces fresh_payment 2" by (simp add: fresh_payment_def)
  have "verifyPaymentAuthorization toy 1000 fresh_payment 2 0 100 2000 0 ''subscribe'' [3, 243] = Inr False"
    by (simp add: verifyPaymentAuthorization_def Let_def toy_recover_def fresh_payment_def)
  with t n toy_verify
    payment_authorization_iff_signer [OF t n, of toy 0 100 "''subscribe''" "[2, 243]"]
  show ?thesis by simp
qed

text \<open>
  C3. A verification whose deadline is strictly earlier than the block time fails with
  "Signature expired" (DeadlineExpired) whatever the signature, also a valid one, and the
  call leaves the storage as it was: \<open>getNonce\<close> of the payer returns the same value
  after the failed call as before it.
\<close>

theorem expired_deadline_rejected:
  assumes "deadline < now"
  shows "verifyPaymentAuthorization c now s payer tok amt deadline nonce action signature
           = Inl Signature_expired
       \<and> exec_payment c (now, VerifyPaymentAuthorization payer tok amt deadline nonce action signature) s
           = (Inl Signature_expired, s)
       \<and> getNonce (snd (exec_payment c
             (now, VerifyPaymentAuthorization payer tok amt deadline nonce action signature) s)) payer
           = getNonce s payer"
  using assms by (simp add: verifyPaymentAuthorization_def not_le)

theorem expired_deadline_rejected_witness:
  "(999 :: uint256) < 1000
   \<and> recover toy (getTypedDataHash toy (buildPaymentAuthorizationHash toy 2 0 100 999 0 ''subscribe''))
        [2, 243] = Some 2
   \<and> verifyPaymentAuthorization toy 999 fresh_payment 2 0 100 999 0 ''subscribe'' [2, 243] = Inr True
   \<and> verifyPaymentAuthorization toy 1000 fresh_payment 2 0 100 999 0 ''subscribe'' [2, 243]
        = Inl Signature_expired
   \<and> getNonce (snd (exec_payment toy
        (1000, VerifyPaymentAuthorization 2 0 100 999 0 ''subscribe'' [2, 243]) fresh_payment)) 2 = 0"
proof -
  have late: "(999 :: uint256) < 1000" by simp
  have valid: "recover toy (getTypedDataHash toy (buildPaymentAuthorizationHash toy 2 0 100 999 0 ''subscribe''))
        [2, 243] = Some 2"
    by (simp add: buildPaymentAuthorizationHash_def toy_recover_def)
  have intime: "verifyPaymentAuthorization toy 999 fresh_payment 2 0 100 999 0 ''subscribe'' [2, 243] = Inr True"
    by (simp add: verifyPaymentAuthorization_def Let_def toy_recover_def fresh_payment_def)
  have "getNonce fresh_payment 2 = 0" by (simp add: getNonce_def fresh_payment_def)
  with late valid intime
    expired_deadline_rejected [OF late, of toy fresh_payment 2 0 100 0 "''subscribe''" "[2, 243]"]
  show ?thesis by simp
qed

section \<open>Encodings\<close>

lemma be_bytes_inj:
  "be_bytes n x = be_bytes n y \<Longrightarrow> x < 256 ^ n \<Longrightarrow> y < 256 ^ n \<Longrightarrow> x = y"
proof (induction n arbitrary: x y)
  case 0
  then show ?case by simp
next
  case (Suc n)
  from Suc.prems(1) have hi: "be_bytes n (x div 256) = be_bytes n (y div 256)"
    and lo: "(of_nat (x mod 256) :: 8 word) = of_nat (y mod 256)"
    by simp_all
  from lo have "unat (of_nat (x mod 256) :: 8 word) = unat (of_nat (y mod 256) :: 8 word)" by simp
  then have m: "x mod 256 = y mod 256" by (simp add: unat_of_nat)
  from Suc.prems(2,3) have "x div 256 < 256 ^ n" "y div 256 < 256 ^ n"
    by (simp_all add: less_mult_imp_div_less mult.commute)
  with hi have d: "x div 256 = y div 256" by (rule Suc.IH)
  from m d show ?case by (metis div_mult_mod_eq)
qed

lemma unat_lt_256_32: "unat (w :: uint256) < 256 ^ 32"
  using unsigned_less [of w, where 'a = nat] by simp


section \<open>Type tags of the three authorizations\<close>









section \<open>The checksum instance\<close>

lemma checksum_simps [simp]:
  "keccak256 checksum = checksum_keccak256" "hashTypedDataV4 checksum = toy_hashTypedDataV4"
  "recover checksum = digest_recover"
  by (simp_all add: checksum_def)

lemma bytesum_zero [simp]: "sum_list (map unat (be_bytes n 0)) = 0"
  by (induction n) simp_all

lemma bytesum_Suc:
  "sum_list (map unat (be_bytes (Suc n) x)) = sum_list (map unat (be_bytes n (x div 256))) + x mod 256"
  by (simp add: unat_of_nat)

lemma bytesum_numeral [simp]:
  "sum_list (map unat (be_bytes (numeral k) x))
     = sum_list (map unat (be_bytes (pred_numeral k) (x div 256))) + x mod 256"
proof -
  have "be_bytes (numeral k) x = be_bytes (Suc (pred_numeral k)) x"
    by (simp only: numeral_eq_Suc)
  then show ?thesis by (simp only: bytesum_Suc)
qed






section \<open>Subscribing\<close>

lemma unat_add_no_overflow: "unat (a :: uint256) + unat b < 2 ^ 256 \<Longrightarrow> unat (a + b) = unat a + unat b"
  by (simp add: unat_word_ariths)

text \<open>What a call with value that returned true did.\<close>

lemma call_value_True:
  assumes "call_value recipient to v s = (True, s0, evs0)"
  obtains evs where "unat v \<le> balance s"
    and "recipient (s\<lparr>balance := balance s - unat v\<rparr>) = (True, s0, evs)"
    and "evs0 = ValueSent to v # evs"
  using assms by (auto simp: call_value_def split: if_splits prod.splits)

text \<open>
  What a successful \<open>subscribe\<close> checked and wrote: \<open>s0\<close> is the state after the payment
  block, which is the state the recipient left for a native-token plan and \<open>s\<close> itself
  otherwise.
\<close>

lemma subscribe_Inr:
  assumes "subscribe recipient sender paid now s planId renew = Inr (s', evs)"
  obtains s0 evs0 where "SubscriptionPlan.active (plans s planId)"
    and "subscriber (subscriptions s planId sender) = 0"
    and "token (plans s planId) = 0 \<Longrightarrow> amount (plans s planId) \<le> paid
           \<and> call_value recipient (paymentRecipient (plans s planId)) (amount (plans s planId)) s
               = (True, s0, evs0)"
    and "token (plans s planId) \<noteq> 0 \<Longrightarrow> s0 = s \<and> evs0 = []"
    and "unat now + unat (interval (plans s planId)) < 2 ^ 256"
    and "unat now + unat (duration (plans s planId)) < 2 ^ 256"
    and "unat (totalSubscribers (plans s0 planId)) + 1 < 2 ^ 256"
    and "s' = s0\<lparr>subscriptions := (subscriptions s0)(planId := (subscriptions s0 planId)(sender :=
                    \<lparr>subscriber = sender, startTime = now,
                      nextPaymentDue = now + interval (plans s planId),
                      endTime = now + duration (plans s planId),
                      totalPaid = amount (plans s planId), missedPayments = 0,
                      active = True, autoRenew = renew\<rparr>)),
                plans := (plans s0)(planId := (plans s0 planId)
                   \<lparr>totalSubscribers := totalSubscribers (plans s0 planId) + 1\<rparr>)\<rparr>"
    and "evs = evs0 @ [SubscriptionCreated planId sender,
                       PaymentProcessed planId sender (amount (plans s planId))]"
  using assms
  by (auto simp: subscribe_def Let_def checked_add_def split: if_splits sum.splits prod.splits)

lemma subscribe_blocked:
  "subscriber (subscriptions s planId sender) \<noteq> 0 \<Longrightarrow>
     subscribe recipient sender paid now s planId renew
       = (if SubscriptionPlan.active (plans s planId) then Inl Already_subscribed else Inl Plan_not_active)"
  by (simp add: subscribe_def Let_def)

text \<open>
  What a successful \<open>subscribe\<close> stored: the times are exact (the additions are checked),
  and the plan's counter is one above what the recipient's call left.
\<close>

lemma subscribe_sets:
  assumes "subscribe recipient sender paid now s planId renew = Inr (s', evs)"
  shows "subscriber (subscriptions s' planId sender) = sender"
    and "startTime (subscriptions s' planId sender) = now"
    and "unat (nextPaymentDue (subscriptions s' planId sender)) = unat now + unat (interval (plans s planId))"
    and "unat (endTime (subscriptions s' planId sender)) = unat now + unat (duration (plans s planId))"
    and "Subscription.active (subscriptions s' planId sender)"
proof -
  obtain s0 evs0 where room: "unat now + unat (interval (plans s planId)) < 2 ^ 256"
      "unat now + unat (duration (plans s planId)) < 2 ^ 256"
    and wrote: "s' = s0\<lparr>subscriptions := (subscriptions s0)(planId := (subscriptions s0 planId)(sender :=
                    \<lparr>subscriber = sender, startTime = now,
                      nextPaymentDue = now + interval (plans s planId),
                      endTime = now + duration (plans s planId),
                      totalPaid = amount (plans s planId), missedPayments = 0,
                      active = True, autoRenew = renew\<rparr>)),
                plans := (plans s0)(planId := (plans s0 planId)
                   \<lparr>totalSubscribers := totalSubscribers (plans s0 planId) + 1\<rparr>)\<rparr>"
    by (rule subscribe_Inr [OF assms]) blast
  show "subscriber (subscriptions s' planId sender) = sender"
    and "startTime (subscriptions s' planId sender) = now"
    and "Subscription.active (subscriptions s' planId sender)"
    by (simp_all add: wrote)
  from room show "unat (nextPaymentDue (subscriptions s' planId sender))
      = unat now + unat (interval (plans s planId))"
    and "unat (endTime (subscriptions s' planId sender)) = unat now + unat (duration (plans s planId))"
    by (simp_all add: wrote unat_add_no_overflow)
qed

lemma toy_createPlan:
  "createPlan toy 1 1700000000 deployed tok 100 2592000 31536000 259200 ''https://api.example.com''
     = Inr (84, plan_state tok, [PlanCreated 84 1 tok 100])"
  by (simp add: createPlan_def checked_add_def deployed_def plan_state_def Let_def
      abi_encodePacked_def toy_keccak256_def)

text \<open>
  Address 2 subscribes to the native-token plan with 100, as a transaction and as the
  body run on the state with the 100 credited; the recipient makes no calls.
\<close>

lemma toy_subscribe:
  "subscribe (\<lambda>s. (True, s, [])) 2 100 1700000000 ((plan_state 0)\<lparr>balance := 100\<rparr>) 84 True
     = Inr (subscribed_state 0,
         [ValueSent 1 100, SubscriptionCreated 84 2, PaymentProcessed 84 2 100])"
  by (simp add: subscribe_def call_value_def checked_add_def deployed_def plan_state_def
      subscribed_state_def zero_subscription_def Let_def)

lemma toy_subscribe_token:
  "subscribe (\<lambda>s. (False, s, [])) 2 0 1700000000 (plan_state 7) 84 True
     = Inr (subscribed_state 7, [SubscriptionCreated 84 2, PaymentProcessed 84 2 100])"
  by (simp add: subscribe_def checked_add_def deployed_def plan_state_def subscribed_state_def
      zero_subscription_def Let_def)

text \<open>
  C9. For a plan whose token is not the native designator (the zero address),
  \<open>subscribe\<close> demands no payment and sends no value: its result is the same for every
  \<open>msg.value\<close>, also zero, and whatever the recipient would do; it never fails with
  "Insufficient payment" or "Payment failed"; and on success its effects are the two
  events only, no value sent and the balance untouched, while the new subscription's
  \<open>totalPaid\<close> is the full plan amount.
\<close>

theorem token_plan_subscribe_unpaid:
  assumes "token (plans s planId) \<noteq> 0"
  shows "subscribe recipient sender paid now s planId renew
           = subscribe (\<lambda>s. (False, s, [])) sender 0 now s planId renew
       \<and> subscribe recipient sender paid now s planId renew \<noteq> Inl Insufficient_payment
       \<and> subscribe recipient sender paid now s planId renew \<noteq> Inl Payment_failed
       \<and> (\<forall>s' evs. subscribe recipient sender paid now s planId renew = Inr (s', evs) \<longrightarrow>
            evs = [SubscriptionCreated planId sender, PaymentProcessed planId sender (amount (plans s planId))]
          \<and> (\<forall>a v. ValueSent a v \<notin> set evs)
          \<and> totalPaid (subscriptions s' planId sender) = amount (plans s planId)
          \<and> balance s' = balance s)"
proof (intro conjI allI impI)
  show "subscribe recipient sender paid now s planId renew
      = subscribe (\<lambda>s. (False, s, [])) sender 0 now s planId renew"
    using assms by (simp add: subscribe_def Let_def)
  show "subscribe recipient sender paid now s planId renew \<noteq> Inl Insufficient_payment"
    using assms by (simp add: subscribe_def Let_def checked_add_def)
  show "subscribe recipient sender paid now s planId renew \<noteq> Inl Payment_failed"
    using assms by (simp add: subscribe_def Let_def checked_add_def)
next
  fix s' evs
  assume ok: "subscribe recipient sender paid now s planId renew = Inr (s', evs)"
  obtain s0 evs0 where r: "token (plans s planId) \<noteq> 0 \<Longrightarrow> s0 = s \<and> evs0 = []"
    "s' = s0\<lparr>subscriptions := (subscriptions s0)(planId := (subscriptions s0 planId)(sender :=
                    \<lparr>subscriber = sender, startTime = now,
                      nextPaymentDue = now + interval (plans s planId),
                      endTime = now + duration (plans s planId),
                      totalPaid = amount (plans s planId), missedPayments = 0,
                      active = True, autoRenew = renew\<rparr>)),
                plans := (plans s0)(planId := (plans s0 planId)
                   \<lparr>totalSubscribers := totalSubscribers (plans s0 planId) + 1\<rparr>)\<rparr>"
    "evs = evs0 @ [SubscriptionCreated planId sender,
                       PaymentProcessed planId sender (amount (plans s planId))]"
    by (rule subscribe_Inr [OF ok]) blast
  from assms r(1,3)
  show evs: "evs = [SubscriptionCreated planId sender, PaymentProcessed planId sender (amount (plans s planId))]"
    by simp
  show "totalPaid (subscriptions s' planId sender) = amount (plans s planId)" by (simp add: r(2))
  from assms r(1) show "balance s' = balance s" by (simp add: r(2))
  fix a v
  show "ValueSent a v \<notin> set evs" by (simp add: evs)
qed

theorem token_plan_subscribe_unpaid_witness:
  "token (plans (plan_state 7) 84) \<noteq> 0
   \<and> subscribe (\<lambda>s. (False, s, [])) 2 0 1700000000 (plan_state 7) 84 True
       = Inr (subscribed_state 7, [SubscriptionCreated 84 2, PaymentProcessed 84 2 100])
   \<and> subscribe (\<lambda>s. (True, s, [])) 2 5 1700000000 (plan_state 7) 84 True
       = Inr (subscribed_state 7, [SubscriptionCreated 84 2, PaymentProcessed 84 2 100])
   \<and> totalPaid (subscriptions (subscribed_state 7) 84 2) = 100"
proof -
  have tok: "token (plans (plan_state 7) 84) \<noteq> 0"
    by (simp add: plan_state_def)
  have amt: "amount (plans (plan_state 7) 84) = 100"
    by (simp add: plan_state_def)
  note unpaid = token_plan_subscribe_unpaid [OF tok, of "\<lambda>s. (True, s, [])" 2 5 1700000000 True]
  from unpaid have same: "subscribe (\<lambda>s. (True, s, [])) 2 5 1700000000 (plan_state 7) 84 True
      = subscribe (\<lambda>s. (False, s, [])) 2 0 1700000000 (plan_state 7) 84 True"
    by (rule conjunct1)
  with toy_subscribe_token have paid5: "subscribe (\<lambda>s. (True, s, [])) 2 5 1700000000 (plan_state 7) 84 True
       = Inr (subscribed_state 7, [SubscriptionCreated 84 2, PaymentProcessed 84 2 100])"
    by simp
  from unpaid paid5 have "totalPaid (subscriptions (subscribed_state 7) 84 2) = amount (plans (plan_state 7) 84)"
    by blast
  with amt have "totalPaid (subscriptions (subscribed_state 7) 84 2) = 100" by simp
  with tok toy_subscribe_token paid5 show ?thesis by simp
qed

lemma toy_subscribe_tx:
  "exec_call toy 2 100 1700000000 (Subscribe 84 True [] True) (plan_state 0)
     = Inr (subscribed_state 0,
         [ValueSent 1 100, SubscriptionCreated 84 2, PaymentProcessed 84 2 100])"
  using toy_subscribe by (simp add: plan_state_def deployed_def)

text \<open>
  C6, as stated, fails: a payment that differs from the plan's amount is admitted when
  it exceeds it. The plan costs 100 in the native token; a \<open>subscribe\<close> carrying 150
  succeeds, sends 100 on to the recipient, records 100 as paid and leaves the other 50
  in the contract's balance.
\<close>

theorem excess_payment_admitted:
  "token (plans (plan_state 0) 84) = 0 \<and> amount (plans (plan_state 0) 84) = 100
   \<and> exec_call toy 2 150 1700000000 (Subscribe 84 True [] True) (plan_state 0)
     = Inr ((subscribed_state 0)\<lparr>balance := 50\<rparr>,
         [ValueSent 1 100, SubscriptionCreated 84 2, PaymentProcessed 84 2 100])"
  by (simp add: subscribe_def call_value_def checked_add_def deployed_def plan_state_def
      subscribed_state_def zero_subscription_def Let_def)

text \<open>
  C6, amended. For a plan priced in the native token: a \<open>subscribe\<close> that reaches the
  payment check (the plan is active and the caller has no stored subscription) with a
  payment (\<open>msg.value\<close>) below the plan's amount is rejected with "Insufficient payment",
  and no \<open>subscribe\<close> paying less than the amount is ever admitted, so no partial charge
  is accepted. A payment above the amount is not rejected with "Insufficient payment";
  whenever a \<open>subscribe\<close> is admitted, exactly the plan's amount is sent to the recipient
  and recorded as \<open>totalPaid\<close>, and the rest of the payment (\<open>msg.value\<close> minus the
  amount) stays in the contract's balance: the balance after the call is what the
  recipient's own calls leave of the old balance plus that rest, and for a recipient
  that makes no calls it is the old balance plus that rest.
\<close>

theorem subscribe_payment_check:
  "(token (plans s planId) = 0 \<and> SubscriptionPlan.active (plans s planId)
      \<and> subscriber (subscriptions s planId sender) = 0 \<and> paid < amount (plans s planId) \<longrightarrow>
       subscribe recipient sender paid now s planId renew = Inl Insufficient_payment)
   \<and> (\<forall>s' evs. token (plans s planId) = 0
         \<and> subscribe recipient sender paid now s planId renew = Inr (s', evs) \<longrightarrow>
         amount (plans s planId) \<le> paid
       \<and> (\<exists>s0 evs0.
             recipient (s\<lparr>balance := balance s - unat (amount (plans s planId))\<rparr>) = (True, s0, evs0)
           \<and> evs = ValueSent (paymentRecipient (plans s planId)) (amount (plans s planId)) # evs0
                 @ [SubscriptionCreated planId sender,
                    PaymentProcessed planId sender (amount (plans s planId))]
           \<and> balance s' = balance s0)
       \<and> totalPaid (subscriptions s' planId sender) = amount (plans s planId))
   \<and> (token (plans s planId) = 0 \<and> amount (plans s planId) \<le> paid \<longrightarrow>
       subscribe recipient sender paid now s planId renew \<noteq> Inl Insufficient_payment)
   \<and> (\<forall>s' evs. token (plans s planId) = 0
         \<and> exec_call c sender paid now (Subscribe planId renew callbacks ok) s = Inr (s', evs) \<longrightarrow>
         unat (amount (plans s planId)) \<le> unat paid
       \<and> balance s' = balance (fst (run_calls c now callbacks
            (s\<lparr>balance := balance s + unat paid - unat (amount (plans s planId))\<rparr>))))
   \<and> (\<forall>s' evs. token (plans s planId) = 0
         \<and> exec_call c sender paid now (Subscribe planId renew [] ok) s = Inr (s', evs) \<longrightarrow>
         balance s' = balance s + unat paid - unat (amount (plans s planId)))"
proof -
  have paid: "amount (plans s planId) \<le> paid
       \<and> (\<exists>s0 evs0.
             r (s\<lparr>balance := balance s - unat (amount (plans s planId))\<rparr>) = (True, s0, evs0)
           \<and> evs = ValueSent (paymentRecipient (plans s planId)) (amount (plans s planId)) # evs0
                 @ [SubscriptionCreated planId sender,
                    PaymentProcessed planId sender (amount (plans s planId))]
           \<and> balance s' = balance s0)
       \<and> totalPaid (subscriptions s' planId sender) = amount (plans s planId)"
    if native: "token (plans s planId) = 0"
      and ok: "subscribe r sender paid now s planId renew = Inr (s', evs)"
    for r s s' evs
  proof -
    obtain s0 evs0 where sent: "token (plans s planId) = 0 \<Longrightarrow> amount (plans s planId) \<le> paid
           \<and> call_value r (paymentRecipient (plans s planId)) (amount (plans s planId)) s
               = (True, s0, evs0)"
      and wrote: "s' = s0\<lparr>subscriptions := (subscriptions s0)(planId := (subscriptions s0 planId)(sender :=
                    \<lparr>subscriber = sender, startTime = now,
                      nextPaymentDue = now + interval (plans s planId),
                      endTime = now + duration (plans s planId),
                      totalPaid = amount (plans s planId), missedPayments = 0,
                      active = True, autoRenew = renew\<rparr>)),
                plans := (plans s0)(planId := (plans s0 planId)
                   \<lparr>totalSubscribers := totalSubscribers (plans s0 planId) + 1\<rparr>)\<rparr>"
      and logged: "evs = evs0 @ [SubscriptionCreated planId sender,
                       PaymentProcessed planId sender (amount (plans s planId))]"
      by (rule subscribe_Inr [OF ok]) blast
    from sent [OF native] obtain evs1 where
      "r (s\<lparr>balance := balance s - unat (amount (plans s planId))\<rparr>) = (True, s0, evs1)"
      and "evs0 = ValueSent (paymentRecipient (plans s planId)) (amount (plans s planId)) # evs1"
      by (auto elim: call_value_True)
    with sent [OF native] wrote logged show ?thesis by simp
  qed
  have kept: "unat (amount (plans s planId)) \<le> unat paid
       \<and> balance s' = balance (fst (run_calls c now cbs
            (s\<lparr>balance := balance s + unat paid - unat (amount (plans s planId))\<rparr>)))"
    if native: "token (plans s planId) = 0"
      and ok: "exec_call c sender paid now (Subscribe planId renew cbs ok) s = Inr (s', evs)"
    for cbs s' evs
  proof -
    let ?r = "\<lambda>s1. case run_calls c now cbs s1 of (s2, evs) \<Rightarrow> (ok, s2, evs)"
    let ?s = "s\<lparr>balance := balance s + unat paid\<rparr>"
    from ok have body: "subscribe ?r sender paid now ?s planId renew = Inr (s', evs)" by simp
    from native have "token (plans ?s planId) = 0" by simp
    from paid [OF this body] obtain s0 evs0 where le: "amount (plans s planId) \<le> paid"
      and ran: "?r (?s\<lparr>balance := balance ?s - unat (amount (plans ?s planId))\<rparr>) = (True, s0, evs0)"
      and bal: "balance s' = balance s0" by auto
    from ran have "s0 = fst (run_calls c now cbs
        (s\<lparr>balance := balance s + unat paid - unat (amount (plans s planId))\<rparr>))"
      by (auto split: prod.splits)
    with le bal show ?thesis by (simp add: word_le_nat_alt)
  qed
  show ?thesis
  proof (intro conjI impI allI)
    assume "token (plans s planId) = 0 \<and> SubscriptionPlan.active (plans s planId)
      \<and> subscriber (subscriptions s planId sender) = 0 \<and> paid < amount (plans s planId)"
    then show "subscribe recipient sender paid now s planId renew = Inl Insufficient_payment"
      by (simp add: subscribe_def Let_def not_le)
  next
    fix s' evs
    assume a: "token (plans s planId) = 0
         \<and> subscribe recipient sender paid now s planId renew = Inr (s', evs)"
    note p = paid [OF conjunct1 [OF a] conjunct2 [OF a]]
    from p show "amount (plans s planId) \<le> paid" by simp
    from p show "\<exists>s0 evs0.
             recipient (s\<lparr>balance := balance s - unat (amount (plans s planId))\<rparr>) = (True, s0, evs0)
           \<and> evs = ValueSent (paymentRecipient (plans s planId)) (amount (plans s planId)) # evs0
                 @ [SubscriptionCreated planId sender,
                    PaymentProcessed planId sender (amount (plans s planId))]
           \<and> balance s' = balance s0" by simp
    from p show "totalPaid (subscriptions s' planId sender) = amount (plans s planId)" by simp
  next
    assume "token (plans s planId) = 0 \<and> amount (plans s planId) \<le> paid"
    then show "subscribe recipient sender paid now s planId renew \<noteq> Inl Insufficient_payment"
      by (simp add: subscribe_def Let_def checked_add_def split: prod.splits)
  next
    fix s' evs
    assume a: "token (plans s planId) = 0
         \<and> exec_call c sender paid now (Subscribe planId renew callbacks ok) s = Inr (s', evs)"
    note k = kept [OF conjunct1 [OF a] conjunct2 [OF a]]
    from k show "unat (amount (plans s planId)) \<le> unat paid" by simp
    from k show "balance s' = balance (fst (run_calls c now callbacks
            (s\<lparr>balance := balance s + unat paid - unat (amount (plans s planId))\<rparr>)))" by simp
  next
    fix s' evs
    assume a: "token (plans s planId) = 0
         \<and> exec_call c sender paid now (Subscribe planId renew [] ok) s = Inr (s', evs)"
    from kept [OF conjunct1 [OF a] conjunct2 [OF a]]
    show "balance s' = balance s + unat paid - unat (amount (plans s planId))" by simp
  qed
qed

theorem subscribe_payment_check_witness:
  "subscribe (\<lambda>s. (True, s, [])) 2 99 1700000000 ((plan_state 0)\<lparr>balance := 99\<rparr>) 84 True
     = Inl Insufficient_payment
   \<and> exec_call toy 2 150 1700000000 (Subscribe 84 True [] True) (plan_state 0)
     = Inr ((subscribed_state 0)\<lparr>balance := 50\<rparr>,
         [ValueSent 1 100, SubscriptionCreated 84 2, PaymentProcessed 84 2 100])
   \<and> amount (plans (plan_state 0) 84) \<le> 150
   \<and> totalPaid (subscriptions (subscribed_state 0) 84 2) = 100
   \<and> balance ((subscribed_state 0)\<lparr>balance := 50\<rparr>) = balance (plan_state 0) + 150 - 100"
proof -
  have plan: "token (plans (plan_state 0) 84) = 0" "amount (plans (plan_state 0) 84) = 100"
    "SubscriptionPlan.active (plans (plan_state 0) 84)" "subscriber (subscriptions (plan_state 0) 84 2) = 0"
    by (simp_all add: plan_state_def deployed_def zero_subscription_def)
  have less: "(99 :: uint256) < 100" by simp
  have excess: "exec_call toy 2 150 1700000000 (Subscribe 84 True [] True) (plan_state 0)
     = Inr ((subscribed_state 0)\<lparr>balance := 50\<rparr>,
         [ValueSent 1 100, SubscriptionCreated 84 2, PaymentProcessed 84 2 100])"
    by (simp add: subscribe_def call_value_def checked_add_def deployed_def plan_state_def
      subscribed_state_def zero_subscription_def Let_def)
  have body: "subscribe (\<lambda>s. (True, s, [])) 2 150 1700000000 ((plan_state 0)\<lparr>balance := 150\<rparr>) 84 True
     = Inr ((subscribed_state 0)\<lparr>balance := 50\<rparr>,
         [ValueSent 1 100, SubscriptionCreated 84 2, PaymentProcessed 84 2 100])"
    using excess by (simp add: plan_state_def deployed_def)
  note check = subscribe_payment_check [where planId = 84 and sender = 2 and now = 1700000000
      and renew = True and recipient = "\<lambda>s. (True, s, [])" and c = toy and ok = True]
  from check [where s = "(plan_state 0)\<lparr>balance := 99\<rparr>" and paid = 99] plan less
  have 1: "subscribe (\<lambda>s. (True, s, [])) 2 99 1700000000 ((plan_state 0)\<lparr>balance := 99\<rparr>) 84 True
     = Inl Insufficient_payment" by simp
  from check [where s = "(plan_state 0)\<lparr>balance := 150\<rparr>" and paid = 150] plan(1) body
  have 2: "amount (plans ((plan_state 0)\<lparr>balance := 150\<rparr>) 84) \<le> 150
     \<and> totalPaid (subscriptions ((subscribed_state 0)\<lparr>balance := 50\<rparr>) 84 2)
         = amount (plans ((plan_state 0)\<lparr>balance := 150\<rparr>) 84)"
    by (simp del: exec_call.simps)
  from check [where s = "plan_state 0" and paid = 150] plan(1) excess
  have 3: "balance ((subscribed_state 0)\<lparr>balance := 50\<rparr>)
      = balance (plan_state 0) + unat (150 :: uint256) - unat (amount (plans (plan_state 0) 84))"
    by blast
  from 1 2 3 excess plan(2) show ?thesis by simp
qed

section \<open>A subscription re-entered through the payment\<close>

text \<open>
  The plan 84 was created by address 1, a contract, so it is the plan's payment
  recipient. Address 1 subscribes with 100 and, while it receives the payment, calls
  \<open>subscribe\<close> for the same plan again with another 100.
\<close>

lemma reentered_once:
  "exec_call toy 1 100 1700000000 (Subscribe 84 True [] True) (plan_state 0)
     = Inr ((plan_state 0)\<lparr>
          subscriptions := (subscriptions (plan_state 0))(84 := (subscriptions (plan_state 0) 84)(1 :=
            \<lparr>subscriber = 1, startTime = 1700000000, nextPaymentDue = 1702592000,
              endTime = 1731536000, totalPaid = 100, missedPayments = 0, active = True,
              autoRenew = True\<rparr>)),
          plans := (plans (plan_state 0))(84 := (plans (plan_state 0) 84)\<lparr>totalSubscribers := 1\<rparr>)\<rparr>,
        [ValueSent 1 100, SubscriptionCreated 84 1, PaymentProcessed 84 1 100])"
  by (simp add: subscribe_def call_value_def checked_add_def deployed_def plan_state_def
      zero_subscription_def Let_def)

text \<open>
  C5 fails on the contract where the recipient of the payment calls back. \<open>subscribe\<close>
  requires that no Subscription is stored for the plan and the caller, but it writes the
  record only after the recipient's call has returned, so a duplicate attempt made by
  the recipient while it receives the payment passes the check. In the run above both
  the re-entered call and the call under way succeed: the duplicate attempt does not
  fail with "Already subscribed", the pair (84, 1) is charged and announced twice, and
  the plan's counter is 2 for one subscriber. (A duplicate attempt that begins after the
  first call has returned does fail: \<open>later_subscribe_fails\<close> below.)
\<close>

theorem duplicate_subscribe_reentered:
  "\<exists>s. exec_call toy 1 100 1700000000
          (Subscribe 84 True [(1, 100, Subscribe 84 True [] True)] True) (plan_state 0)
        = Inr (s, [ValueSent 1 100,
                   ValueSent 1 100, SubscriptionCreated 84 1, PaymentProcessed 84 1 100,
                   SubscriptionCreated 84 1, PaymentProcessed 84 1 100])
      \<and> subscriber (subscriptions s 84 1) = 1
      \<and> totalSubscribers (plans s 84) = 2
      \<and> balance s = 0"
  by (simp add: subscribe_def call_value_def checked_add_def deployed_def plan_state_def
      zero_subscription_def Let_def)


section \<open>Subscriptions stay\<close>

text \<open>
  No call, with whatever the recipients of its payments call back, clears the
  \<open>subscriber\<close> field of a stored Subscription or the \<open>active\<close> flag of a plan.
\<close>

lemma calls_keep:
  "exec_call c sender paid now call s = Inr (s', evs) \<Longrightarrow>
     (subscriber (subscriptions s p a) \<noteq> 0 \<longrightarrow> subscriber (subscriptions s' p a) \<noteq> 0)
     \<and> (SubscriptionPlan.active (plans s p) \<longrightarrow> SubscriptionPlan.active (plans s' p))"
  "run_calls c now calls s = (s', evs) \<Longrightarrow>
     (subscriber (subscriptions s p a) \<noteq> 0 \<longrightarrow> subscriber (subscriptions s' p a) \<noteq> 0)
     \<and> (SubscriptionPlan.active (plans s p) \<longrightarrow> SubscriptionPlan.active (plans s' p))"
proof (induction c sender paid now call s and c now calls s arbitrary: s' evs and s' evs
    rule: exec_call_run_calls.induct)
  case (1 c sender paid now planId renew callbacks ok s)
  let ?r = "\<lambda>s1. case run_calls c now callbacks s1 of (s2, evs) \<Rightarrow> (ok, s2, evs)"
  let ?s = "s\<lparr>balance := balance s + unat paid\<rparr>"
  from "1.prems" have body: "subscribe ?r sender paid now ?s planId renew = Inr (s', evs)" by simp
  obtain s0 evs0 where unsub: "subscriber (subscriptions ?s planId sender) = 0"
    and native: "token (plans ?s planId) = 0 \<Longrightarrow> amount (plans ?s planId) \<le> paid
           \<and> call_value ?r (paymentRecipient (plans ?s planId)) (amount (plans ?s planId)) ?s
               = (True, s0, evs0)"
    and other: "token (plans ?s planId) \<noteq> 0 \<Longrightarrow> s0 = ?s \<and> evs0 = []"
    and wrote: "s' = s0\<lparr>subscriptions := (subscriptions s0)(planId := (subscriptions s0 planId)(sender :=
                    \<lparr>subscriber = sender, startTime = now,
                      nextPaymentDue = now + interval (plans ?s planId),
                      endTime = now + duration (plans ?s planId),
                      totalPaid = amount (plans ?s planId), missedPayments = 0,
                      active = True, autoRenew = renew\<rparr>)),
                plans := (plans s0)(planId := (plans s0 planId)
                   \<lparr>totalSubscribers := totalSubscribers (plans s0 planId) + 1\<rparr>)\<rparr>"
    by (rule subscribe_Inr [OF body]) blast
  have mid: "(subscriber (subscriptions s p a) \<noteq> 0 \<longrightarrow> subscriber (subscriptions s0 p a) \<noteq> 0)
     \<and> (SubscriptionPlan.active (plans s p) \<longrightarrow> SubscriptionPlan.active (plans s0 p))"
  proof (cases "token (plans ?s planId) = 0")
    case True
    from native [OF True] obtain evs1 where
      "?r (?s\<lparr>balance := balance ?s - unat (amount (plans ?s planId))\<rparr>) = (True, s0, evs1)"
      by (auto elim: call_value_True)
    then have "run_calls c now callbacks
        (?s\<lparr>balance := balance ?s - unat (amount (plans ?s planId))\<rparr>) = (s0, evs1)"
      by (auto split: prod.splits)
    from "1.IH" [OF this] show ?thesis by simp
  next
    case False
    from other [OF False] show ?thesis by simp
  qed
  from unsub have "subscriber (subscriptions s planId sender) = 0" by simp
  with mid show ?case by (auto simp: wrote)
next
  case (2 c sender paid now token' amount' interval' duration' gracePeriod' apiUrl' s)
  then show ?case
    by (auto simp: createPlan_def Let_def split: if_splits sum.splits)
next
  case (8 c now sender paid call calls s)
  show ?case
  proof (cases "exec_call c sender paid now call s")
    case (Inl e)
    with "8.prems" have "run_calls c now calls s = (s', evs)" by simp
    from "8.IH"(2) [OF Inl this] show ?thesis .
  next
    case (Inr r)
    obtain s1 evs1 where r: "r = (s1, evs1)" by (cases r)
    obtain s2 evs2 where rest: "run_calls c now calls s1 = (s2, evs2)"
      by (cases "run_calls c now calls s1")
    with "8.prems" Inr r have "s' = s2" by simp
    with "8.IH"(1) [OF Inr [unfolded r]] "8.IH"(3) [OF Inr [unfolded r] refl rest]
    show ?thesis by simp
  qed
qed (auto split: if_splits)

lemma exec_manager_keeps:
  "subscriber (subscriptions s p a) \<noteq> 0 \<Longrightarrow> subscriber (subscriptions (exec_manager c t s) p a) \<noteq> 0"
  "SubscriptionPlan.active (plans s p) \<Longrightarrow> SubscriptionPlan.active (plans (exec_manager c t s) p)"
  by (auto simp: exec_manager_def split: sum.splits dest: calls_keep(1))

lemma run_manager_keeps:
  "subscriber (subscriptions s p a) \<noteq> 0 \<Longrightarrow> SubscriptionPlan.active (plans s p) \<Longrightarrow>
     subscriber (subscriptions (run_manager c ts s) p a) \<noteq> 0
     \<and> SubscriptionPlan.active (plans (run_manager c ts s) p)"
proof (induction ts arbitrary: s)
  case Nil
  then show ?case by simp
next
  case (Cons t ts)
  from Cons.prems have "subscriber (subscriptions (exec_manager c t s) p a) \<noteq> 0"
    and "SubscriptionPlan.active (plans (exec_manager c t s) p)"
    by (simp_all add: exec_manager_keeps)
  then show ?case using Cons.IH by simp
qed

text \<open>
  So a \<open>subscribe\<close> that begins after one of the same caller to the same plan has
  returned fails, whatever ran in between; only a call already under way, as above, is
  not stopped.
\<close>

lemma later_subscribe_fails:
  assumes "sender \<noteq> 0"
      and "exec_call c sender paid now (Subscribe planId renew callbacks ok) s = Inr (s1, evs)"
  shows "exec_call c sender paid2 now2 (Subscribe planId renew2 callbacks2 ok2) (run_manager c ts s1)
           = Inl Already_subscribed"
proof -
  let ?r = "\<lambda>s1. case run_calls c now callbacks s1 of (s2, evs) \<Rightarrow> (ok, s2, evs)"
  let ?s = "s\<lparr>balance := balance s + unat paid\<rparr>"
  from assms(2) have body: "subscribe ?r sender paid now ?s planId renew = Inr (s1, evs)" by simp
  obtain s0 evs0 where act: "SubscriptionPlan.active (plans ?s planId)"
    and wrote: "s1 = s0\<lparr>subscriptions := (subscriptions s0)(planId := (subscriptions s0 planId)(sender :=
                    \<lparr>subscriber = sender, startTime = now,
                      nextPaymentDue = now + interval (plans ?s planId),
                      endTime = now + duration (plans ?s planId),
                      totalPaid = amount (plans ?s planId), missedPayments = 0,
                      active = True, autoRenew = renew\<rparr>)),
                plans := (plans s0)(planId := (plans s0 planId)
                   \<lparr>totalSubscribers := totalSubscribers (plans s0 planId) + 1\<rparr>)\<rparr>"
    by (rule subscribe_Inr [OF body]) blast
  from assms(1) have stored: "subscriber (subscriptions s1 planId sender) \<noteq> 0" by (simp add: wrote)
  from act calls_keep(1) [OF assms(2)] have "SubscriptionPlan.active (plans s1 planId)" by simp
  with stored have "subscriber (subscriptions (run_manager c ts s1) planId sender) \<noteq> 0
     \<and> SubscriptionPlan.active (plans (run_manager c ts s1) planId)"
    by (rule run_manager_keeps)
  then show ?thesis by (simp add: subscribe_blocked)
qed

section \<open>Creating plans\<close>

text \<open>The packed encoding determines the counter it was built from.\<close>

lemma packed_counter_inj:
  assumes "abi_encodePacked [Address a, Uint256 n, Uint256 t]
         = abi_encodePacked [Address a', Uint256 n', Uint256 t']"
  shows "n = n'"
proof -
  from assms have "be_bytes 32 (unat n) = be_bytes 32 (unat n')"
    by (simp add: abi_encodePacked_def)
  then have "unat n = unat n'"
    by (rule be_bytes_inj) (rule unat_lt_256_32)+
  then show ?thesis by (simp add: word_unat_eq_iff)
qed

text \<open>What a successful \<open>createPlan\<close> did.\<close>

lemma createPlan_Inr:
  assumes "createPlan c sender now s token' amount' interval' duration' gracePeriod' apiUrl'
             = Inr (planId, s', evs)"
  shows "0 < amount'" and "0 < interval'" and "unat (planCounter s) + 1 < 2 ^ 256"
    and "planId = plan_id c (sender, planCounter s + 1, now)"
    and "s' = s\<lparr>planCounter := planCounter s + 1,
                plans := (plans s)(planId := \<lparr>token = token', amount = amount', interval = interval',
                  duration = duration', gracePeriod = gracePeriod',
                  SubscriptionPlan.active = True, creator = sender, paymentRecipient = sender,
                  apiUrl = apiUrl', totalSubscribers = 0\<rparr>),
                allPlans := allPlans s @ [planId]\<rparr>"
    and "evs = [PlanCreated planId sender token' amount']"
  using assms
  by (auto simp: createPlan_def Let_def checked_add_def plan_id_def plan_tuple_def
      split: if_splits)

lemma createPlan_created:
  assumes "createPlan c sender now s token' amount' interval' duration' gracePeriod' apiUrl'
             = Inr (planId, s', evs)"
      and "created_from c s made"
  shows "created_from c s' (made @ [(sender, planCounter s + 1, now)])"
proof -
  note r = createPlan_Inr [OF assms(1)]
  from r(3) have up: "unat (planCounter s + 1) = unat (planCounter s) + 1"
    by (simp add: unat_word_ariths)
  from assms(2) have ids: "allPlans s = map (plan_id c) made"
    and old: "list_all (\<lambda>m. case m of (a, n, t) \<Rightarrow> unat n \<le> unat (planCounter s)) made"
    by (simp_all add: created_from_def)
  from old up have "list_all (\<lambda>m. case m of (a, n, t) \<Rightarrow> unat n \<le> unat (planCounter s + 1)) made"
    by (auto simp: list_all_iff)
  with ids r(4) show ?thesis by (simp add: created_from_def r(5))
qed

text \<open>
  C7. \<open>createPlan\<close> fails when the amount is zero ("Amount must be > 0") or the interval
  is zero ("Interval must be > 0"). With both positive (and the plan counter below its
  last value, where the checked increment would revert) it returns the identifier
  \<open>keccak256(abi.encodePacked(msg.sender, planCounter + 1, block.timestamp))\<close>, leaves the
  counter one higher, and stores under that identifier the plan with the given terms,
  \<open>active = true\<close> and the caller as creator and payment recipient. The identifier is
  fresh: the hashed tuple differs from every tuple with a counter up to the old one, and
  when the stored identifiers are the hashes of the tuples of the plans made so far (as
  they are in every state reached from deployment, \<open>reachable_created\<close>) and
  \<open>keccak256\<close> does not collide between one of those tuples and the new one, the new
  identifier is none of the stored ones.
\<close>

theorem createPlan_contract:
  "(amount' = 0 \<longrightarrow>
      createPlan c sender now s token' amount' interval' duration' gracePeriod' apiUrl'
        = Inl Amount_must_be_gt_0)
   \<and> (amount' \<noteq> 0 \<and> interval' = 0 \<longrightarrow>
      createPlan c sender now s token' amount' interval' duration' gracePeriod' apiUrl'
        = Inl Interval_must_be_gt_0)
   \<and> (0 < amount' \<and> 0 < interval' \<and> unat (planCounter s) + 1 < 2 ^ 256 \<longrightarrow>
        (\<exists>planId s'.
            createPlan c sender now s token' amount' interval' duration' gracePeriod' apiUrl'
              = Inr (planId, s', [PlanCreated planId sender token' amount'])
          \<and> planId = keccak256 c (abi_encodePacked
                [Address sender, Uint256 (planCounter s + 1), Uint256 now])
          \<and> unat (planCounter s') = unat (planCounter s) + 1
          \<and> (\<forall>a n t. unat n \<le> unat (planCounter s) \<longrightarrow>
                abi_encodePacked [Address a, Uint256 n, Uint256 t]
                  \<noteq> abi_encodePacked [Address sender, Uint256 (planCounter s + 1), Uint256 now])
          \<and> (\<forall>made. created_from c s made
                \<and> list_all (\<lambda>m. collision_free c (plan_tuple m)
                      (plan_tuple (sender, planCounter s + 1, now))) made \<longrightarrow>
                planId \<notin> set (allPlans s)
              \<and> created_from c s' (made @ [(sender, planCounter s + 1, now)]))
          \<and> plans s' planId = \<lparr>token = token', amount = amount', interval = interval',
                duration = duration', gracePeriod = gracePeriod',
                SubscriptionPlan.active = True, creator = sender, paymentRecipient = sender,
                apiUrl = apiUrl', totalSubscribers = 0\<rparr>
          \<and> SubscriptionPlan.active (plans s' planId)
          \<and> creator (plans s' planId) = sender
          \<and> allPlans s' = allPlans s @ [planId]))"
proof (intro conjI impI)
  assume "amount' = 0"
  then show "createPlan c sender now s token' amount' interval' duration' gracePeriod' apiUrl'
        = Inl Amount_must_be_gt_0"
    by (simp add: createPlan_def)
next
  assume "amount' \<noteq> 0 \<and> interval' = 0"
  then show "createPlan c sender now s token' amount' interval' duration' gracePeriod' apiUrl'
        = Inl Interval_must_be_gt_0"
    by (simp add: createPlan_def word_greater_zero_iff)
next
  assume a: "0 < amount' \<and> 0 < interval' \<and> unat (planCounter s) + 1 < 2 ^ 256"
  let ?n = "planCounter s + 1"
  let ?id = "keccak256 c (abi_encodePacked [Address sender, Uint256 ?n, Uint256 now])"
  let ?plan = "\<lparr>token = token', amount = amount', interval = interval',
                duration = duration', gracePeriod = gracePeriod',
                SubscriptionPlan.active = True, creator = sender, paymentRecipient = sender,
                apiUrl = apiUrl', totalSubscribers = 0\<rparr>"
  let ?s' = "s\<lparr>planCounter := ?n, plans := (plans s)(?id := ?plan), allPlans := allPlans s @ [?id]\<rparr>"
  from a have add: "checked_add (planCounter s) 1 = Inr ?n"
    by (simp add: checked_add_def)
  from a have next_counter: "unat ?n = unat (planCounter s) + 1"
    by (simp add: unat_word_ariths)
  from a add have run: "createPlan c sender now s token' amount' interval' duration' gracePeriod' apiUrl'
      = Inr (?id, ?s', [PlanCreated ?id sender token' amount'])"
    by (simp add: createPlan_def Let_def)
  have tuple: "\<forall>a n t. unat n \<le> unat (planCounter s) \<longrightarrow>
                abi_encodePacked [Address a, Uint256 n, Uint256 t]
                  \<noteq> abi_encodePacked [Address sender, Uint256 ?n, Uint256 now]"
  proof (intro allI impI notI)
    fix a n t
    assume le: "unat n \<le> unat (planCounter s)"
      and eq: "abi_encodePacked [Address a, Uint256 n, Uint256 t]
                  = abi_encodePacked [Address sender, Uint256 ?n, Uint256 now]"
    from eq have "n = ?n" by (rule packed_counter_inj)
    with le next_counter show False by simp
  qed
  have fresh: "\<forall>made. created_from c s made
                \<and> list_all (\<lambda>m. collision_free c (plan_tuple m) (plan_tuple (sender, ?n, now))) made \<longrightarrow>
                ?id \<notin> set (allPlans s) \<and> created_from c ?s' (made @ [(sender, ?n, now)])"
  proof (intro allI impI conjI)
    fix made
    assume h: "created_from c s made
                \<and> list_all (\<lambda>m. collision_free c (plan_tuple m) (plan_tuple (sender, ?n, now))) made"
    from h createPlan_created [OF run] show "created_from c ?s' (made @ [(sender, ?n, now)])" by simp
    show "?id \<notin> set (allPlans s)"
    proof
      assume "?id \<in> set (allPlans s)"
      with h obtain m where m: "m \<in> set made" and same: "plan_id c m = ?id"
        by (auto simp: created_from_def)
      obtain a n t where mt: "m = (a, n, t)" by (cases m)
      from h m have "collision_free c (plan_tuple m) (plan_tuple (sender, ?n, now))"
        by (auto simp: list_all_iff)
      with same have "plan_tuple m = plan_tuple (sender, ?n, now)"
        by (simp add: collision_free_def plan_id_def plan_tuple_def)
      with mt have "n = ?n" by (auto simp: plan_tuple_def dest: packed_counter_inj)
      moreover from h m mt have "unat n \<le> unat (planCounter s)"
        by (auto simp: created_from_def list_all_iff)
      ultimately show False using next_counter by simp
    qed
  qed
  from run next_counter tuple fresh
  show "\<exists>planId s'.
            createPlan c sender now s token' amount' interval' duration' gracePeriod' apiUrl'
              = Inr (planId, s', [PlanCreated planId sender token' amount'])
          \<and> planId = keccak256 c (abi_encodePacked
                [Address sender, Uint256 (planCounter s + 1), Uint256 now])
          \<and> unat (planCounter s') = unat (planCounter s) + 1
          \<and> (\<forall>a n t. unat n \<le> unat (planCounter s) \<longrightarrow>
                abi_encodePacked [Address a, Uint256 n, Uint256 t]
                  \<noteq> abi_encodePacked [Address sender, Uint256 (planCounter s + 1), Uint256 now])
          \<and> (\<forall>made. created_from c s made
                \<and> list_all (\<lambda>m. collision_free c (plan_tuple m)
                      (plan_tuple (sender, planCounter s + 1, now))) made \<longrightarrow>
                planId \<notin> set (allPlans s)
              \<and> created_from c s' (made @ [(sender, planCounter s + 1, now)]))
          \<and> plans s' planId = ?plan
          \<and> SubscriptionPlan.active (plans s' planId)
          \<and> creator (plans s' planId) = sender
          \<and> allPlans s' = allPlans s @ [planId]"
    by (intro exI [of _ ?id] exI [of _ ?s']) simp
qed

text \<open>
  Every state the contract reaches from its deployment has such a history: the calls of
  a transaction, those made back by recipients included, only append to it.
\<close>

lemma created_from_balance [simp]:
  "created_from c (s\<lparr>balance := b\<rparr>) made = created_from c s made"
  by (simp add: created_from_def)

lemma calls_created:
  "exec_call c sender paid now call s = Inr (s', evs) \<Longrightarrow> created_from c s made \<Longrightarrow>
     \<exists>more. created_from c s' (made @ more)"
  "run_calls c now calls s = (s', evs) \<Longrightarrow> created_from c s made \<Longrightarrow>
     \<exists>more. created_from c s' (made @ more)"
proof (induction c sender paid now call s and c now calls s arbitrary: s' evs made and s' evs made
    rule: exec_call_run_calls.induct)
  case (1 c sender paid now planId renew callbacks ok s)
  let ?r = "\<lambda>s1. case run_calls c now callbacks s1 of (s2, evs) \<Rightarrow> (ok, s2, evs)"
  let ?s = "s\<lparr>balance := balance s + unat paid\<rparr>"
  from "1.prems" have body: "subscribe ?r sender paid now ?s planId renew = Inr (s', evs)" by simp
  obtain s0 evs0 where
        native: "token (plans ?s planId) = 0 \<Longrightarrow> amount (plans ?s planId) \<le> paid
           \<and> call_value ?r (paymentRecipient (plans ?s planId)) (amount (plans ?s planId)) ?s
               = (True, s0, evs0)"
    and other: "token (plans ?s planId) \<noteq> 0 \<Longrightarrow> s0 = ?s \<and> evs0 = []"
    and wrote: "s' = s0\<lparr>subscriptions := (subscriptions s0)(planId := (subscriptions s0 planId)(sender :=
                    \<lparr>subscriber = sender, startTime = now,
                      nextPaymentDue = now + interval (plans ?s planId),
                      endTime = now + duration (plans ?s planId),
                      totalPaid = amount (plans ?s planId), missedPayments = 0,
                      active = True, autoRenew = renew\<rparr>)),
                plans := (plans s0)(planId := (plans s0 planId)
                   \<lparr>totalSubscribers := totalSubscribers (plans s0 planId) + 1\<rparr>)\<rparr>"
    by (rule subscribe_Inr [OF body]) blast
  have "\<exists>more. created_from c s0 (made @ more)"
  proof (cases "token (plans ?s planId) = 0")
    case True
    from native [OF True] obtain evs1 where
      "?r (?s\<lparr>balance := balance ?s - unat (amount (plans ?s planId))\<rparr>) = (True, s0, evs1)"
      by (auto elim: call_value_True)
    then have "run_calls c now callbacks
        (?s\<lparr>balance := balance ?s - unat (amount (plans ?s planId))\<rparr>) = (s0, evs1)"
      by (auto split: prod.splits)
    from "1.IH" [OF this] "1.prems"(2) show ?thesis by simp
  next
    case False
    from other [OF False] "1.prems"(2) have "created_from c s0 (made @ [])" by simp
    then show ?thesis by blast
  qed
  then show ?case by (simp add: wrote created_from_def)
next
  case (2 c sender paid now token' amount' interval' duration' gracePeriod' apiUrl' s)
  from "2.prems"(1) obtain planId where
    "createPlan c sender now s token' amount' interval' duration' gracePeriod' apiUrl'
       = Inr (planId, s', evs)"
    by (cases "createPlan c sender now s token' amount' interval' duration' gracePeriod' apiUrl'")
       (auto split: if_splits)
  from createPlan_created [OF this "2.prems"(2)] show ?case by blast
next
  case (7 c now s)
  then have "created_from c s' (made @ [])" by simp
  then show ?case by blast
next
  case (8 c now sender paid call calls s)
  show ?case
  proof (cases "exec_call c sender paid now call s")
    case (Inl e)
    with "8.prems" have "run_calls c now calls s = (s', evs)" by simp
    from "8.IH"(2) [OF Inl this "8.prems"(2)] show ?thesis .
  next
    case (Inr r)
    obtain s1 evs1 where r: "r = (s1, evs1)" by (cases r)
    obtain s2 evs2 where rest: "run_calls c now calls s1 = (s2, evs2)"
      by (cases "run_calls c now calls s1")
    with "8.prems" Inr r have s': "s' = s2" by simp
    from "8.IH"(1) [OF Inr [unfolded r] "8.prems"(2)] obtain more1 where
      "created_from c s1 (made @ more1)" by blast
    from "8.IH"(3) [OF Inr [unfolded r] refl rest this] obtain more2 where
      "created_from c s2 ((made @ more1) @ more2)" by blast
    with s' have "created_from c s' (made @ (more1 @ more2))" by simp
    then show ?thesis by blast
  qed
next
  case (3 c sender paid now planId s)
  then have "created_from c s' (made @ [])" by (auto split: if_splits)
  then show ?case by blast
next
  case (4 c sender paid now planId sub s)
  then have "created_from c s' (made @ [])" by (auto split: if_splits)
  then show ?case by blast
next
  case (5 c sender paid now s)
  then have "created_from c s' (made @ [])" by (auto split: if_splits)
  then show ?case by blast
next
  case (6 c sender paid now user s)
  then have "created_from c s' (made @ [])" by (auto split: if_splits)
  then show ?case by blast
qed

lemma reachable_created: "\<exists>made. created_from c (run_manager c ts deployed) made"
proof -
  have "\<exists>made. created_from c (run_manager c ts s) made" if "\<exists>made. created_from c s made" for s
    using that
  proof (induction ts arbitrary: s)
    case Nil
    then show ?case by simp
  next
    case (Cons t ts)
    from Cons.prems obtain made where made: "created_from c s made" by blast
    have "\<exists>made'. created_from c (exec_manager c t s) made'"
    proof (cases "exec_call c (tx_sender t) (tx_paid t) (tx_time t) (tx_call t) s")
      case (Inl e)
      with made show ?thesis by (auto simp: exec_manager_def)
    next
      case (Inr r)
      obtain s1 evs1 where r: "r = (s1, evs1)" by (cases r)
      from calls_created(1) [OF Inr [unfolded r] made] Inr r show ?thesis
        by (auto simp: exec_manager_def)
    qed
    from Cons.IH [OF this] show ?case by simp
  qed
  moreover have "created_from c deployed []" by (simp add: created_from_def deployed_def)
  ultimately show ?thesis by blast
qed

lemma checksum_plan_ids:
  "keccak256 checksum (abi_encodePacked [Address 1, Uint256 1, Uint256 1700000000]) = 511"
  "keccak256 checksum (abi_encodePacked [Address 1, Uint256 2, Uint256 1700000100]) = 612"
  by (simp_all add: checksum_keccak256_def abi_encodePacked_def)

theorem createPlan_contract_witness:
  "\<exists>s1 s2.
     createPlan checksum 1 1700000000 deployed 0 0 2592000 31536000 259200 ''https://api.example.com''
       = Inl Amount_must_be_gt_0
   \<and> createPlan checksum 1 1700000000 deployed 0 100 0 31536000 259200 ''https://api.example.com''
       = Inl Interval_must_be_gt_0
   \<and> createPlan checksum 1 1700000000 deployed 0 100 2592000 31536000 259200 ''https://api.example.com''
       = Inr (511, s1, [PlanCreated 511 1 0 100])
   \<and> created_from checksum s1 [(1, 1, 1700000000)]
   \<and> list_all (\<lambda>m. collision_free checksum (plan_tuple m) (plan_tuple (1, 2, 1700000100)))
        [(1, 1, 1700000000)]
   \<and> createPlan checksum 1 1700000100 s1 0 5 60 600 6 ''https://api.example.com/v2''
       = Inr (612, s2, [PlanCreated 612 1 0 5])
   \<and> 612 \<notin> set (allPlans s1)
   \<and> allPlans s2 = [511, 612]
   \<and> SubscriptionPlan.active (plans s2 612)
   \<and> creator (plans s2 612) = 1"
proof -
  note first = createPlan_contract [where c = checksum and sender = 1 and now = 1700000000
      and s = deployed and token' = 0 and duration' = 31536000 and gracePeriod' = 259200
      and apiUrl' = "''https://api.example.com''"]
  from first [where amount' = 0 and interval' = 2592000]
  have 1: "createPlan checksum 1 1700000000 deployed 0 0 2592000 31536000 259200 ''https://api.example.com''
     = Inl Amount_must_be_gt_0" by simp
  have nz: "(100 :: uint256) \<noteq> 0 \<and> (0 :: uint256) = 0" by simp
  from first [where amount' = 100 and interval' = 0] nz
  have 2: "createPlan checksum 1 1700000000 deployed 0 100 0 31536000 259200 ''https://api.example.com''
     = Inl Interval_must_be_gt_0" by blast
  have zero: "planCounter deployed = 0" "allPlans deployed = []" by (simp_all add: deployed_def)
  have pos: "0 < (100 :: uint256) \<and> 0 < (2592000 :: uint256) \<and> unat (planCounter deployed) + 1 < 2 ^ 256"
    by (simp add: zero)
  have none: "created_from checksum deployed []
      \<and> list_all (\<lambda>m. collision_free checksum (plan_tuple m)
            (plan_tuple (1, planCounter deployed + 1, 1700000000))) []"
    by (simp add: created_from_def zero)
  from first [where amount' = 100 and interval' = 2592000] pos
  obtain id1 s1 where made1:
      "createPlan checksum 1 1700000000 deployed 0 100 2592000 31536000 259200 ''https://api.example.com''
         = Inr (id1, s1, [PlanCreated id1 1 0 100])"
    and derived1: "id1 = keccak256 checksum (abi_encodePacked
         [Address 1, Uint256 (planCounter deployed + 1), Uint256 1700000000])"
    and counted1: "unat (planCounter s1) = unat (planCounter deployed) + 1"
    and history1: "\<forall>made. created_from checksum deployed made
                \<and> list_all (\<lambda>m. collision_free checksum (plan_tuple m)
                      (plan_tuple (1, planCounter deployed + 1, 1700000000))) made \<longrightarrow>
                id1 \<notin> set (allPlans deployed)
              \<and> created_from checksum s1 (made @ [(1, planCounter deployed + 1, 1700000000)])"
    and listed1: "allPlans s1 = allPlans deployed @ [id1]"
    by blast
  from derived1 have id1: "id1 = 511" by (simp only: zero add_0 checksum_plan_ids)
  from counted1 have "unat (planCounter s1) = 1" by (simp add: zero)
  then have counter1: "planCounter s1 = 1" by (simp add: word_unat_eq_iff)
  from history1 none have hist1: "created_from checksum s1 [(1, 1, 1700000000)]"
    by (auto simp: zero)
  have apart: "list_all (\<lambda>m. collision_free checksum (plan_tuple m) (plan_tuple (1, 2, 1700000100)))
        [(1, 1, 1700000000)]"
    using checksum_plan_ids by (simp add: collision_free_def plan_tuple_def)
  have pos2: "0 < (5 :: uint256) \<and> 0 < (60 :: uint256) \<and> unat (planCounter s1) + 1 < 2 ^ 256"
    by (simp add: counter1)
  from createPlan_contract [where c = checksum and sender = 1 and now = 1700000100
      and s = s1 and token' = 0 and amount' = 5 and interval' = 60 and duration' = 600
      and gracePeriod' = 6 and apiUrl' = "''https://api.example.com/v2''"] pos2
  obtain id2 s2 where made2:
      "createPlan checksum 1 1700000100 s1 0 5 60 600 6 ''https://api.example.com/v2''
         = Inr (id2, s2, [PlanCreated id2 1 0 5])"
    and derived2: "id2 = keccak256 checksum (abi_encodePacked
         [Address 1, Uint256 (planCounter s1 + 1), Uint256 1700000100])"
    and history2: "\<forall>made. created_from checksum s1 made
                \<and> list_all (\<lambda>m. collision_free checksum (plan_tuple m)
                      (plan_tuple (1, planCounter s1 + 1, 1700000100))) made \<longrightarrow>
                id2 \<notin> set (allPlans s1)
              \<and> created_from checksum s2 (made @ [(1, planCounter s1 + 1, 1700000100)])"
    and stored2: "SubscriptionPlan.active (plans s2 id2)" "creator (plans s2 id2) = 1"
      "allPlans s2 = allPlans s1 @ [id2]"
    by blast
  have two: "planCounter s1 + 1 = 2" by (simp add: counter1)
  from derived2 have id2: "id2 = 612" by (simp only: two checksum_plan_ids)
  from history2 hist1 apart have fresh: "id2 \<notin> set (allPlans s1)"
    unfolding two by blast
  from listed1 stored2(3) have all2: "allPlans s2 = [511, 612]" by (simp add: id1 id2 zero)
  from 1 2 made1 hist1 apart made2 fresh all2 stored2(1,2)
  show ?thesis unfolding id1 id2 by blast
qed

section \<open>The payment schedule\<close>

lemma put_subscription_simps [simp]:
  "plans (manager (put_subscription l planId sub sb)) = plans (manager l)"
  "subscriptions (manager (put_subscription l planId sub sb)) planId sub = sb"
  by (simp_all add: put_subscription_def)

lemma processPayment_schedule:
  assumes "processPayment now l planId sub settlementRef = (r, l')"
  shows "plans (manager l') = plans (manager l)"
    and "startTime (subscriptions (manager l') planId sub) = startTime (subscriptions (manager l) planId sub)"
    and "r = None \<Longrightarrow> unat (nextPaymentDue (subscriptions (manager l') planId sub))
           = unat (nextPaymentDue (subscriptions (manager l) planId sub))
             + unat (interval (plans (manager l) planId))"
    and "r \<noteq> None \<Longrightarrow> nextPaymentDue (subscriptions (manager l') planId sub)
           = nextPaymentDue (subscriptions (manager l) planId sub)"
  using assms
  by (auto simp: processPayment_def Let_def checked_add_def unat_word_ariths
      split: if_splits sum.splits)

lemma run_payments_schedule:
  "run_payments l planId sub calls = (l', n) \<Longrightarrow>
     plans (manager l') = plans (manager l)
   \<and> startTime (subscriptions (manager l') planId sub) = startTime (subscriptions (manager l) planId sub)
   \<and> unat (nextPaymentDue (subscriptions (manager l') planId sub))
       = unat (nextPaymentDue (subscriptions (manager l) planId sub))
         + n * unat (interval (plans (manager l) planId))"
proof (induction calls arbitrary: l l' n)
  case Nil
  then show ?case by simp
next
  case (Cons call calls)
  obtain now settlementRef where call: "call = (now, settlementRef)" by (cases call)
  obtain r l1 where step: "processPayment now l planId sub settlementRef = (r, l1)"
    by (cases "processPayment now l planId sub settlementRef")
  note one = processPayment_schedule [OF step]
  show ?case
  proof (cases r)
    case None
    obtain l2 m where rest: "run_payments l1 planId sub calls = (l2, m)"
      by (cases "run_payments l1 planId sub calls")
    with Cons.prems call step None have res: "l' = l2" "n = Suc m" by simp_all
    from Cons.IH [OF rest] one(1,2) one(3) [OF None] res
    show ?thesis by (simp add: algebra_simps)
  next
    case (Some e)
    with Cons.prems call step have rest: "run_payments l1 planId sub calls = (l', n)" by simp
    from Some have "r \<noteq> None" by simp
    from Cons.IH [OF rest] one(1,2) one(4) [OF this]
    show ?thesis by simp
  qed
qed

text \<open>A recipient that makes no calls leaves the plan as it was.\<close>

lemma passive_subscribe_keeps_interval:
  assumes "subscribe (\<lambda>s. (ok, s, [])) sender paid now s planId renew = Inr (s1, evs)"
  shows "interval (plans s1 planId) = interval (plans s planId)"
proof -
  obtain s0 evs0 where native: "token (plans s planId) = 0 \<Longrightarrow> amount (plans s planId) \<le> paid
           \<and> call_value (\<lambda>s. (ok, s, [])) (paymentRecipient (plans s planId)) (amount (plans s planId)) s
               = (True, s0, evs0)"
    and other: "token (plans s planId) \<noteq> 0 \<Longrightarrow> s0 = s \<and> evs0 = []"
    and wrote: "s1 = s0\<lparr>subscriptions := (subscriptions s0)(planId := (subscriptions s0 planId)(sender :=
                    \<lparr>subscriber = sender, startTime = now,
                      nextPaymentDue = now + interval (plans s planId),
                      endTime = now + duration (plans s planId),
                      totalPaid = amount (plans s planId), missedPayments = 0,
                      active = True, autoRenew = renew\<rparr>)),
                plans := (plans s0)(planId := (plans s0 planId)
                   \<lparr>totalSubscribers := totalSubscribers (plans s0 planId) + 1\<rparr>)\<rparr>"
    by (rule subscribe_Inr [OF assms]) blast
  have "plans s0 = plans s"
  proof (cases "token (plans s planId) = 0")
    case True
    from native [OF True] show ?thesis by (auto elim!: call_value_True)
  next
    case False
    from other [OF False] show ?thesis by simp
  qed
  then show ?thesis by (simp add: wrote)
qed

text \<open>
  C8, as stated, fails already for N = 0: right after \<open>subscribe\<close> (no
  \<open>processPayment\<close> yet) \<open>nextPaymentDue\<close> is \<open>startTime + interval\<close>, not
  \<open>startTime + 0 * interval\<close>. The first charge is taken by \<open>subscribe\<close> itself.
\<close>

theorem due_after_no_payment:
  "exec_call toy 2 100 1700000000 (Subscribe 84 True [] True) (plan_state 0)
     = Inr (subscribed_state 0, [ValueSent 1 100, SubscriptionCreated 84 2, PaymentProcessed 84 2 100])
   \<and> run_payments \<lparr>manager = subscribed_state 0, payment_records = []\<rparr> 84 2 []
     = (\<lparr>manager = subscribed_state 0, payment_records = []\<rparr>, 0)
   \<and> unat (nextPaymentDue (subscriptions (subscribed_state 0) 84 2))
     \<noteq> unat (startTime (subscriptions (subscribed_state 0) 84 2))
       + 0 * unat (interval (plans (subscribed_state 0) 84))"
  by (simp add: toy_subscribe_tx del: exec_call.simps) (simp add: subscribed_state_def)

text \<open>
  C8, amended. After a successful \<open>subscribe\<close> and any run of \<open>processPayment\<close> calls
  for the subscription, at whatever block times, of which N succeeded,
  \<open>nextPaymentDue = startTime + (N + 1) * interval\<close> exactly: \<open>subscribe\<close> schedules the
  first due date one interval after the start, each success advances the due date by the
  interval from the scheduled date, and a failed call does not move it. The first of
  the N + 1 intervals is the one \<open>subscribe\<close> read from the plan; it is the plan's
  interval afterwards too unless a plan was created again under the same identifier
  while the recipient of the first payment ran, which a recipient that makes no calls
  never does.
\<close>

theorem payment_schedule:
  assumes "subscribe recipient sub paid now s planId renew = Inr (s1, evs)"
      and "run_payments \<lparr>manager = s1, payment_records = records\<rparr> planId sub calls = (l, n)"
  shows "unat (nextPaymentDue (subscriptions (manager l) planId sub))
         = unat (startTime (subscriptions (manager l) planId sub))
           + unat (interval (plans s planId)) + n * unat (interval (plans (manager l) planId))
       \<and> (interval (plans s1 planId) = interval (plans s planId) \<longrightarrow>
           unat (nextPaymentDue (subscriptions (manager l) planId sub))
           = unat (startTime (subscriptions (manager l) planId sub))
             + (n + 1) * unat (interval (plans (manager l) planId)))"
proof -
  obtain s0 evs0 where room: "unat now + unat (interval (plans s planId)) < 2 ^ 256"
    and wrote: "s1 = s0\<lparr>subscriptions := (subscriptions s0)(planId := (subscriptions s0 planId)(sub :=
                    \<lparr>subscriber = sub, startTime = now,
                      nextPaymentDue = now + interval (plans s planId),
                      endTime = now + duration (plans s planId),
                      totalPaid = amount (plans s planId), missedPayments = 0,
                      active = True, autoRenew = renew\<rparr>)),
                plans := (plans s0)(planId := (plans s0 planId)
                   \<lparr>totalSubscribers := totalSubscribers (plans s0 planId) + 1\<rparr>)\<rparr>"
    by (rule subscribe_Inr [OF assms(1)]) blast
  have start: "startTime (subscriptions s1 planId sub) = now"
    by (simp add: wrote)
  from room have due: "unat (nextPaymentDue (subscriptions s1 planId sub))
      = unat now + unat (interval (plans s planId))"
    by (simp add: wrote unat_add_no_overflow)
  from run_payments_schedule [OF assms(2)] start due
  have general: "unat (nextPaymentDue (subscriptions (manager l) planId sub))
         = unat (startTime (subscriptions (manager l) planId sub))
           + unat (interval (plans s planId)) + n * unat (interval (plans (manager l) planId))"
    and plan: "plans (manager l) = plans s1"
    by simp_all
  from general plan show ?thesis by simp
qed

lemma example_payments:
  "snd (run_payments \<lparr>manager = subscribed_state 0, payment_records = []\<rparr> 84 2
     [(1702678400, ''0xa1''), (1703888000, ''0xa2''), (1705270400, ''0xa3'')]) = 2"
  by (simp add: processPayment_def put_subscription_def subscribed_state_def plan_state_def
      deployed_def checked_add_def Let_def)

theorem payment_schedule_witness:
  "subscribe (\<lambda>s. (True, s, [])) 2 100 1700000000 ((plan_state 0)\<lparr>balance := 100\<rparr>) 84 True
     = Inr (subscribed_state 0, [ValueSent 1 100, SubscriptionCreated 84 2, PaymentProcessed 84 2 100])
   \<and> interval (plans (subscribed_state 0) 84) = interval (plans ((plan_state 0)\<lparr>balance := 100\<rparr>) 84)
   \<and> snd (run_payments \<lparr>manager = subscribed_state 0, payment_records = []\<rparr> 84 2
        [(1702678400, ''0xa1''), (1703888000, ''0xa2''), (1705270400, ''0xa3'')]) = 2
   \<and> unat (nextPaymentDue (subscriptions (manager (fst
        (run_payments \<lparr>manager = subscribed_state 0, payment_records = []\<rparr> 84 2
           [(1702678400, ''0xa1''), (1703888000, ''0xa2''), (1705270400, ''0xa3'')]))) 84 2))
     = 1700000000 + 3 * 2592000"
proof -
  let ?run = "run_payments \<lparr>manager = subscribed_state 0, payment_records = []\<rparr> 84 2
        [(1702678400, ''0xa1''), (1703888000, ''0xa2''), (1705270400, ''0xa3'')]"
  have run: "?run = (fst ?run, 2)"
    using example_payments by (simp add: prod_eq_iff)
  have same: "interval (plans (subscribed_state 0) 84)
      = interval (plans ((plan_state 0)\<lparr>balance := 100\<rparr>) 84)"
    by (rule passive_subscribe_keeps_interval [OF toy_subscribe])
  have plans: "plans (manager (fst ?run)) = plans (subscribed_state 0)"
    and start: "startTime (subscriptions (manager (fst ?run)) 84 2) = 1700000000"
    using run_payments_schedule [OF run] by (simp_all add: subscribed_state_def)
  have interval: "interval (plans (subscribed_state 0) 84) = 2592000"
    by (simp add: subscribed_state_def plan_state_def)
  from payment_schedule [OF toy_subscribe run] same
  have "unat (nextPaymentDue (subscriptions (manager (fst ?run)) 84 2))
      = unat (startTime (subscriptions (manager (fst ?run)) 84 2))
        + (2 + 1) * unat (interval (plans (manager (fst ?run)) 84))"
    by blast
  with plans start interval
  have "unat (nextPaymentDue (subscriptions (manager (fst ?run)) 84 2)) = 1700000000 + 3 * 2592000"
    by simp
  with toy_subscribe same example_payments show ?thesis by simp
qed

end
